theory Spec2Isabelle
  imports Main "HOL-Library.Sublist"
begin

section \<open>Strings\<close>

text \<open>
  A string of the program is modelled by the list of the bytes of its UTF-8 form, so that
  every character of the messages and every white space character of \<^verbatim>\<open>trim\<close> can be
  written down. The arguments of the command line are well-formed Unicode text.
\<close>

definition dq :: char where
  "dq = CHR 0x22"

definition bslash :: char where
  "bslash = CHR 0x5C"

definition nl :: char where
  "nl = CHR 0x0A"

text \<open>\<^verbatim>\<open>Array.prototype.join\<close> on an array of strings.\<close>

fun join :: "string \<Rightarrow> string list \<Rightarrow> string" where
  "join sep [] = []"
| "join sep [x] = x"
| "join sep (x # y # ys) = x @ sep @ join sep (y # ys)"

text \<open>
  The code points that \<^verbatim>\<open>String.prototype.trim\<close> removes (WhiteSpace and LineTerminator
  of ECMAScript), each in UTF-8: U+0009 to U+000D, U+0020, U+00A0, U+1680, U+2000 to
  U+200A, U+2028, U+2029, U+202F, U+205F, U+3000 and U+FEFF.
\<close>

definition whiteSpace :: "string list" where
  "whiteSpace =
    [[CHR 0x09], [CHR 0x0A], [CHR 0x0B], [CHR 0x0C], [CHR 0x0D], [CHR 0x20],
     [CHR 0xC2, CHR 0xA0],
     [CHR 0xE1, CHR 0x9A, CHR 0x80],
     [CHR 0xE2, CHR 0x80, CHR 0x80], [CHR 0xE2, CHR 0x80, CHR 0x81],
     [CHR 0xE2, CHR 0x80, CHR 0x82], [CHR 0xE2, CHR 0x80, CHR 0x83],
     [CHR 0xE2, CHR 0x80, CHR 0x84], [CHR 0xE2, CHR 0x80, CHR 0x85],
     [CHR 0xE2, CHR 0x80, CHR 0x86], [CHR 0xE2, CHR 0x80, CHR 0x87],
     [CHR 0xE2, CHR 0x80, CHR 0x88], [CHR 0xE2, CHR 0x80, CHR 0x89],
     [CHR 0xE2, CHR 0x80, CHR 0x8A],
     [CHR 0xE2, CHR 0x80, CHR 0xA8], [CHR 0xE2, CHR 0x80, CHR 0xA9],
     [CHR 0xE2, CHR 0x80, CHR 0xAF],
     [CHR 0xE2, CHR 0x81, CHR 0x9F],
     [CHR 0xE3, CHR 0x80, CHR 0x80],
     [CHR 0xEF, CHR 0xBB, CHR 0xBF]]"

lemma whiteSpace_nonempty: "p \<in> set whiteSpace \<Longrightarrow> p \<noteq> []"
  by (auto simp: whiteSpace_def)

lemma find_in_set: "find P xs = Some p \<Longrightarrow> p \<in> set xs \<and> P p"
  by (induction xs) (auto split: if_splits)

function trimStart :: "string \<Rightarrow> string" where
  "trimStart s =
     (case find (\<lambda>p. prefix p s) whiteSpace of
        None \<Rightarrow> s
      | Some p \<Rightarrow> trimStart (drop (length p) s))"
  by pat_completeness auto
termination
proof (relation "measure length")
  show "wf (measure length)" by simp
next
  fix s p
  assume "find (\<lambda>p. prefix p s) whiteSpace = Some p"
  then have "p \<in> set whiteSpace" and "prefix p s"
    using find_in_set by fastforce+
  then have "p \<noteq> []" and "length p \<le> length s"
    by (simp_all add: whiteSpace_nonempty prefix_length_le)
  then show "(drop (length p) s, s) \<in> measure length"
    by (cases p) auto
qed

function trimEnd :: "string \<Rightarrow> string" where
  "trimEnd s =
     (case find (\<lambda>p. suffix p s) whiteSpace of
        None \<Rightarrow> s
      | Some p \<Rightarrow> trimEnd (take (length s - length p) s))"
  by pat_completeness auto
termination
proof (relation "measure length")
  show "wf (measure length)" by simp
next
  fix s p
  assume "find (\<lambda>p. suffix p s) whiteSpace = Some p"
  then have "p \<in> set whiteSpace" and "suffix p s"
    using find_in_set by fastforce+
  then have "p \<noteq> []" and "length p \<le> length s"
    by (simp_all add: whiteSpace_nonempty suffix_length_le)
  then show "(take (length s - length p) s, s) \<in> measure length"
    by (cases p) auto
qed

declare trimStart.simps [simp del] trimEnd.simps [simp del]

definition trim :: "string \<Rightarrow> string" where
  "trim s = trimEnd (trimStart s)"

text \<open>Decimal rendering of a number, as a template literal renders it.\<close>

definition digit :: "nat \<Rightarrow> char" where
  "digit n = char_of (48 + n)"

function show_nat :: "nat \<Rightarrow> string" where
  "show_nat n = (if n < 10 then [digit n] else show_nat (n div 10) @ [digit (n mod 10)])"
  by pat_completeness auto
termination
  by (relation "measure id") auto

declare show_nat.simps [simp del]

section \<open>JSON text\<close>

text \<open>
  \<^verbatim>\<open>JSON.stringify\<close> and \<^verbatim>\<open>JSON.parse\<close> belong to the platform. They are modelled on
  JSON values. A number keeps its lexeme: its floating point value is not computed, and no
  field of a job application is a number.
\<close>

datatype json =
    JNull
  | JBool bool
  | JNum string
  | JStr string
  | JArr "json list"
  | JObj "(string \<times> json) list"

subsection \<open>Serialising\<close>

definition hexDigit :: "nat \<Rightarrow> char" where
  "hexDigit n = (if n < 10 then char_of (48 + n) else char_of (87 + n))"

text \<open>
  QuoteJSONString: the quote, the backslash and the control characters are escaped; every
  other byte is copied.
\<close>

definition quoteChar :: "char \<Rightarrow> string" where
  "quoteChar c =
     (if c = CHR 0x08 then [bslash, CHR ''b'']
      else if c = CHR 0x09 then [bslash, CHR ''t'']
      else if c = CHR 0x0A then [bslash, CHR ''n'']
      else if c = CHR 0x0C then [bslash, CHR ''f'']
      else if c = CHR 0x0D then [bslash, CHR ''r'']
      else if c = dq then [bslash, dq]
      else if c = bslash then [bslash, bslash]
      else if (of_char c :: nat) < 0x20
        then [bslash, CHR ''u'', CHR ''0'', CHR ''0'',
              hexDigit (of_char c div 16), hexDigit (of_char c mod 16)]
      else [c])"

definition quoteJSONString :: "string \<Rightarrow> string" where
  "quoteJSONString s = dq # concat (map quoteChar s) @ [dq]"

definition indent :: "nat \<Rightarrow> string" where
  "indent n = replicate n CHR '' ''"

text \<open>
  SerializeJSONProperty with a gap of two spaces; the first argument is the current
  indentation.
\<close>

fun stringify :: "nat \<Rightarrow> json \<Rightarrow> string"
  and stringify_elems :: "nat \<Rightarrow> json list \<Rightarrow> string list"
  and stringify_members :: "nat \<Rightarrow> (string \<times> json) list \<Rightarrow> string list"
where
  "stringify n JNull = ''null''"
| "stringify n (JBool b) = (if b then ''true'' else ''false'')"
| "stringify n (JNum x) = x"
| "stringify n (JStr s) = quoteJSONString s"
| "stringify n (JArr vs) =
     (if vs = [] then ''[]''
      else ''['' @ [nl] @ indent (n + 2)
           @ join ('','' @ [nl] @ indent (n + 2)) (stringify_elems (n + 2) vs)
           @ [nl] @ indent n @ '']'')"
| "stringify n (JObj ms) =
     (if ms = [] then ''{}''
      else ''{'' @ [nl] @ indent (n + 2)
           @ join ('','' @ [nl] @ indent (n + 2)) (stringify_members (n + 2) ms)
           @ [nl] @ indent n @ ''}'')"
| "stringify_elems n [] = []"
| "stringify_elems n (v # vs) = stringify n v # stringify_elems n vs"
| "stringify_members n [] = []"
| "stringify_members n (m # ms) =
     (quoteJSONString (fst m) @ '': '' @ stringify n (snd m)) # stringify_members n ms"

definition JSON_stringify :: "json \<Rightarrow> string" where
  "JSON_stringify v = stringify 0 v"

subsection \<open>Parsing\<close>

definition is_ws :: "char \<Rightarrow> bool" where
  "is_ws c = (c = CHR 0x20 \<or> c = CHR 0x09 \<or> c = CHR 0x0A \<or> c = CHR 0x0D)"

definition skip_ws :: "string \<Rightarrow> string" where
  "skip_ws s = dropWhile is_ws s"

definition is_digit :: "char \<Rightarrow> bool" where
  "is_digit c = (48 \<le> (of_char c :: nat) \<and> (of_char c :: nat) \<le> 57)"

definition hexVal :: "char \<Rightarrow> nat option" where
  "hexVal c =
     (let n = (of_char c :: nat) in
      if 48 \<le> n \<and> n \<le> 57 then Some (n - 48)
      else if 97 \<le> n \<and> n \<le> 102 then Some (n - 87)
      else if 65 \<le> n \<and> n \<le> 70 then Some (n - 55)
      else None)"

text \<open>The four hexadecimal digits of a \<^verbatim>\<open>\u\<close> escape.\<close>

definition hex4 :: "string \<Rightarrow> nat option" where
  "hex4 s =
     (case s of
        a # b # c # d # _ \<Rightarrow>
          (case (hexVal a, hexVal b, hexVal c, hexVal d) of
             (Some x, Some y, Some z, Some u) \<Rightarrow> Some (((x * 16 + y) * 16 + z) * 16 + u)
           | _ \<Rightarrow> None)
      | _ \<Rightarrow> None)"

text \<open>
  The UTF-8 form of a code point. An escaped surrogate that has no partner keeps the
  three bytes this formula gives it.
\<close>

definition utf8 :: "nat \<Rightarrow> string" where
  "utf8 n =
     (if n < 0x80 then [char_of n]
      else if n < 0x800 then [char_of (0xC0 + n div 64), char_of (0x80 + n mod 64)]
      else if n < 0x10000
        then [char_of (0xE0 + n div 4096), char_of (0x80 + n div 64 mod 64),
              char_of (0x80 + n mod 64)]
      else [char_of (0xF0 + n div 262144), char_of (0x80 + n div 4096 mod 64),
            char_of (0x80 + n div 64 mod 64), char_of (0x80 + n mod 64)])"

definition unescape :: "char \<Rightarrow> char option" where
  "unescape e =
     (if e = dq then Some dq
      else if e = bslash then Some bslash
      else if e = CHR ''/'' then Some CHR ''/''
      else if e = CHR ''b'' then Some (CHR 0x08)
      else if e = CHR ''f'' then Some (CHR 0x0C)
      else if e = CHR ''n'' then Some (CHR 0x0A)
      else if e = CHR ''r'' then Some (CHR 0x0D)
      else if e = CHR ''t'' then Some (CHR 0x09)
      else None)"

text \<open>
  The low surrogate that follows an escaped high surrogate \<open>n\<close>, when there is one: the
  two escapes are one code point.
\<close>

definition low_surrogate :: "nat \<Rightarrow> string \<Rightarrow> nat option" where
  "low_surrogate n s =
     (if 0xD800 \<le> n \<and> n < 0xDC00 then
        (case s of
           a # b # r \<Rightarrow>
             (if a = bslash \<and> b = CHR ''u'' then
                (case hex4 r of
                   Some m \<Rightarrow> if 0xDC00 \<le> m \<and> m < 0xE000 then Some m else None
                 | None \<Rightarrow> None)
              else None)
         | _ \<Rightarrow> None)
      else None)"

text \<open>The characters of a string after its opening quote, up to the closing quote.\<close>

function parse_chars :: "string \<Rightarrow> (string \<times> string) option" where
  "parse_chars [] = None"
| "parse_chars (c # cs) =
     (if c = dq then Some ([], cs)
      else if c = bslash then
        (case cs of
           [] \<Rightarrow> None
         | e # r \<Rightarrow>
             (if e = CHR ''u'' then
                (case hex4 r of
                   None \<Rightarrow> None
                 | Some n \<Rightarrow>
                     (case low_surrogate n (drop 4 r) of
                        Some m \<Rightarrow>
                          map_option (apfst ((@) (utf8 (0x10000 + (n - 0xD800) * 0x400 + (m - 0xDC00)))))
                            (parse_chars (drop 10 r))
                      | None \<Rightarrow>
                          map_option (apfst ((@) (utf8 n))) (parse_chars (drop 4 r))))
              else
                (case unescape e of
                   None \<Rightarrow> None
                 | Some x \<Rightarrow> map_option (apfst ((#) x)) (parse_chars r))))
      else if (of_char c :: nat) < 0x20 then None
      else map_option (apfst ((#) c)) (parse_chars cs))"
  by pat_completeness auto
termination
  by (relation "measure length") auto

text \<open>
  The lexeme of a number: an optional minus, an integer part without a leading zero, an
  optional fraction and an optional exponent.
\<close>

definition digits1 :: "string \<Rightarrow> (string \<times> string) option" where
  "digits1 s = (if takeWhile is_digit s = [] then None
                else Some (takeWhile is_digit s, dropWhile is_digit s))"

definition parse_number :: "string \<Rightarrow> (string \<times> string) option" where
  "parse_number s =
     (let (sign, s1) = (case s of c # r \<Rightarrow> if c = CHR ''-'' then ([c], r) else ([], s) | [] \<Rightarrow> ([], s)) in
      case (case s1 of
              [] \<Rightarrow> None
            | c # r \<Rightarrow> if c = CHR ''0'' then Some ([c], r) else digits1 s1) of
        None \<Rightarrow> None
      | Some (ip, s2) \<Rightarrow>
          (case (case s2 of
                   c # r \<Rightarrow> if c = CHR ''.'' then map_option (apfst ((#) c)) (digits1 r)
                             else Some ([], s2)
                 | [] \<Rightarrow> Some ([], s2)) of
             None \<Rightarrow> None
           | Some (fp, s3) \<Rightarrow>
               (case (case s3 of
                        c # r \<Rightarrow>
                          if c = CHR ''e'' \<or> c = CHR ''E'' then
                            (case r of
                               d # r' \<Rightarrow>
                                 if d = CHR ''+'' \<or> d = CHR ''-''
                                 then map_option (apfst (\<lambda>x. c # d # x)) (digits1 r')
                                 else map_option (apfst ((#) c)) (digits1 r)
                             | [] \<Rightarrow> None)
                          else Some ([], s3)
                      | [] \<Rightarrow> Some ([], s3)) of
                  None \<Rightarrow> None
                | Some (ep, s4) \<Rightarrow> Some (sign @ ip @ fp @ ep, s4))))"

lemma length_skip_ws: "length (skip_ws s) \<le> length s"
  by (simp add: skip_ws_def length_dropWhile_le)

lemma skip_ws_Cons_length: "skip_ws s = d # ds \<Longrightarrow> length ds < length s"
  using length_skip_ws [of s] by simp

text \<open>
  A value, the elements of a non-empty array after its bracket, and the members of a
  non-empty object after its brace. Each function returns what it read and the rest of
  the text. The comparisons of lengths are what the termination proof rests on; they hold
  whenever a value has been read (lemma \<open>parse_shorter\<close>), so that the functions satisfy
  the equations without them (lemmas \<open>parse_elems_unguarded\<close> and
  \<open>parse_members_unguarded\<close>).
\<close>

function parse_value :: "string \<Rightarrow> (json \<times> string) option"
  and parse_elems :: "string \<Rightarrow> (json list \<times> string) option"
  and parse_members :: "string \<Rightarrow> ((string \<times> json) list \<times> string) option"
where
  "parse_value [] = None"
| "parse_value (c # cs) =
     (if c = CHR ''['' then
        (case skip_ws cs of
           [] \<Rightarrow> None
         | d # ds \<Rightarrow>
             if d = CHR '']'' then Some (JArr [], ds)
             else map_option (apfst JArr) (parse_elems (d # ds)))
      else if c = CHR ''{'' then
        (case skip_ws cs of
           [] \<Rightarrow> None
         | d # ds \<Rightarrow>
             if d = CHR ''}'' then Some (JObj [], ds)
             else map_option (apfst JObj) (parse_members (d # ds)))
      else if c = dq then map_option (apfst JStr) (parse_chars cs)
      else if prefix ''true'' (c # cs) then Some (JBool True, drop 3 cs)
      else if prefix ''false'' (c # cs) then Some (JBool False, drop 4 cs)
      else if prefix ''null'' (c # cs) then Some (JNull, drop 3 cs)
      else map_option (apfst JNum) (parse_number (c # cs)))"
| "parse_elems s =
     (case parse_value s of
        None \<Rightarrow> None
      | Some (v, r) \<Rightarrow>
          if length r < length s then
            (case skip_ws r of
               [] \<Rightarrow> None
             | d # ds \<Rightarrow>
                 if d = CHR '','' then map_option (apfst ((#) v)) (parse_elems (skip_ws ds))
                 else if d = CHR '']'' then Some ([v], ds)
                 else None)
          else None)"
| "parse_members [] = None"
| "parse_members (c # cs) =
     (if c = dq then
        (case parse_chars cs of
           None \<Rightarrow> None
         | Some (k, r) \<Rightarrow>
             (case skip_ws r of
                [] \<Rightarrow> None
              | d # ds \<Rightarrow>
                  if d = CHR '':'' \<and> length (skip_ws ds) < length (c # cs) then
                    (case parse_value (skip_ws ds) of
                       None \<Rightarrow> None
                     | Some (v, r') \<Rightarrow>
                         if length r' < length (c # cs) then
                           (case skip_ws r' of
                              [] \<Rightarrow> None
                            | x # xs \<Rightarrow>
                                if x = CHR '','' then
                                  map_option (apfst ((#) (k, v))) (parse_members (skip_ws xs))
                                else if x = CHR ''}'' then Some ([(k, v)], xs)
                                else None)
                         else None)
                  else None))
      else None)"
  by pat_completeness auto

termination
proof (relation "measure (\<lambda>x. case x of
          Inl s \<Rightarrow> 2 * length s
        | Inr (Inl s) \<Rightarrow> 2 * length s + 1
        | Inr (Inr s) \<Rightarrow> 2 * length s + 1)", goal_cases)
  case 1
  show ?case by simp
next
  case (2 c cs d ds)
  then show ?case using skip_ws_Cons_length [of cs d ds] by simp
next
  case (3 c cs d ds)
  then show ?case using skip_ws_Cons_length [of cs d ds] by simp
next
  case (4 s)
  show ?case by simp
next
  case (5 s x v r d ds)
  then show ?case
    using skip_ws_Cons_length [of r d ds] length_skip_ws [of ds] by simp
next
  case (6 c cs x k r d ds)
  then show ?case by simp
next
  case (7 c cs x k r d ds y v r' z zs)
  then show ?case
    using skip_ws_Cons_length [of r' z zs] length_skip_ws [of zs] by simp
qed

declare parse_value.simps [simp del] parse_elems.simps [simp del] parse_members.simps [simp del]

datatype error = SyntaxError | TypeMismatch

text \<open>\<^verbatim>\<open>JSON.parse\<close>: one value between white space, or a SyntaxError.\<close>

definition JSON_parse :: "string \<Rightarrow> error + json" where
  "JSON_parse text =
     (case parse_value (skip_ws text) of
        None \<Rightarrow> Inl SyntaxError
      | Some (v, r) \<Rightarrow> if skip_ws r = [] then Inr v else Inl SyntaxError)"

section \<open>The data model\<close>

text \<open>
  \<^verbatim>\<open>JobStatus\<close> is a union of five string literals: at run time a status is the string
  itself, and \<open>isStatus\<close> is the only check the program makes.
\<close>

type_synonym JobStatus = string

record JobApplication =
  id' :: string
  company :: string
  role :: string
  status :: JobStatus
  createdAt :: string
  notes' :: "string option"

definition isStatus :: "string \<Rightarrow> bool" where
  "isStatus v = (v \<in> set [''saved'', ''applied'', ''interview'', ''offer'', ''rejected''])"

section \<open>The process and its environment\<close>

text \<open>
  What one run of the program can read and change: the content of \<^verbatim>\<open>jobs.json\<close>
  (\<open>None\<close> when the file does not exist) and the lines written to the two output streams.
\<close>

record world =
  data_file :: "string option"
  stdout :: "string list"
  stderr :: "string list"

text \<open>
  What the platform answers during one run: \<^verbatim>\<open>Date.now()\<close>,
  \<^verbatim>\<open>Math.random().toString(16)\<close>, \<^verbatim>\<open>new Date().toISOString()\<close> and, for a stored
  date \<open>d\<close>, \<^verbatim>\<open>new Date(d).toLocaleString()\<close>.
\<close>

record env =
  date_now :: nat
  math_random :: string
  toISOString :: string
  toLocaleString :: "string \<Rightarrow> string"

definition console_log :: "string \<Rightarrow> world \<Rightarrow> world" where
  "console_log m w = w\<lparr>stdout := stdout w @ [m]\<rparr>"

definition console_error :: "string \<Rightarrow> world \<Rightarrow> world" where
  "console_error m w = w\<lparr>stderr := stderr w @ [m]\<rparr>"

section \<open>The store\<close>

text \<open>
  The object that \<^verbatim>\<open>JSON.stringify\<close> sees: the properties in the order of the object
  literal of \<^verbatim>\<open>add\<close>, a property whose value is \<^verbatim>\<open>undefined\<close> left out. An object
  read from a file has its properties in the order of that file; the model writes it back
  in the order of the literal, so the text of the file is modelled up to the order of the
  properties of an entry, and its parsed content exactly.
\<close>

definition toJSON :: "JobApplication \<Rightarrow> json" where
  "toJSON j =
     JObj ([(''id'', JStr (id' j)), (''company'', JStr (company j)), (''role'', JStr (role j)),
            (''status'', JStr (status j)), (''createdAt'', JStr (createdAt j))]
           @ (case notes' j of None \<Rightarrow> [] | Some n \<Rightarrow> [(''notes'', JStr n)]))"

text \<open>The value of a property: of a key that occurs twice, the last occurrence counts.\<close>

definition property :: "(string \<times> json) list \<Rightarrow> string \<Rightarrow> json option" where
  "property ms k = map_of (rev ms) k"

text \<open>
  The cast \<^verbatim>\<open>as JobApplication[]\<close> checks nothing. The model reads a parsed value at the
  type the cast claims, and answers \<open>None\<close> for a value that is not of this type (a missing
  or non-string field, or a property the interface does not have), which a record cannot
  hold.
\<close>

definition asJobApplication :: "json \<Rightarrow> JobApplication option" where
  "asJobApplication v =
     (case v of
        JObj ms \<Rightarrow>
          (if list_all (\<lambda>k. k \<in> set [''id'', ''company'', ''role'', ''status'', ''createdAt'', ''notes''])
                (map fst ms) then
             (case (property ms ''id'', property ms ''company'', property ms ''role'',
                    property ms ''status'', property ms ''createdAt'') of
                (Some (JStr i), Some (JStr c), Some (JStr r), Some (JStr s), Some (JStr t)) \<Rightarrow>
                  (case property ms ''notes'' of
                     None \<Rightarrow>
                       Some \<lparr>id' = i, company = c, role = r, status = s, createdAt = t,
                             notes' = None\<rparr>
                   | Some (JStr n) \<Rightarrow>
                       Some \<lparr>id' = i, company = c, role = r, status = s, createdAt = t,
                             notes' = Some n\<rparr>
                   | Some _ \<Rightarrow> None)
              | _ \<Rightarrow> None)
           else None)
      | _ \<Rightarrow> None)"

definition asJobApplications :: "json \<Rightarrow> JobApplication list option" where
  "asJobApplications v = (case v of JArr vs \<Rightarrow> those (map asJobApplication vs) | _ \<Rightarrow> None)"

text \<open>
  \<^verbatim>\<open>loadJobs\<close>: an empty collection when the file does not exist; otherwise the parsed
  content. A SyntaxError of \<^verbatim>\<open>JSON.parse\<close> is not caught anywhere.
\<close>

definition loadJobs :: "world \<Rightarrow> error + JobApplication list" where
  "loadJobs w =
     (case data_file w of
        None \<Rightarrow> Inr []
      | Some raw \<Rightarrow>
          (case JSON_parse raw of
             Inl e \<Rightarrow> Inl e
           | Inr v \<Rightarrow> (case asJobApplications v of None \<Rightarrow> Inl TypeMismatch | Some jobs \<Rightarrow> Inr jobs)))"

definition saveJobs :: "JobApplication list \<Rightarrow> world \<Rightarrow> world" where
  "saveJobs jobs w = w\<lparr>data_file := Some (JSON_stringify (JArr (map toJSON jobs)))\<rparr>"

section \<open>The commands\<close>

definition makeId :: "env \<Rightarrow> string" where
  "makeId e = show_nat (date_now e) @ ''-'' @ drop 2 (math_random e)"

definition helpText :: string where
  "helpText = join [nl]
     [[],
      ''Job Tracker (TypeScript CLI)'',
      [],
      ''Commands:'',
      ''  add '' @ [dq] @ ''<company>'' @ [dq] @ '' '' @ [dq] @ ''<role>'' @ [dq] @ '' [status] [notes]'',
      ''  list'',
      ''  update <id> <status>'',
      ''  remove <id>'',
      ''  help'',
      [],
      ''Statuses: saved | applied | interview | offer | rejected'',
      [],
      ''Examples:'',
      ''  npm run dev -- add '' @ [dq] @ ''Google'' @ [dq] @ '' '' @ [dq] @ ''Software Engineer'' @ [dq]
        @ '' applied '' @ [dq] @ ''Reached out via referral'' @ [dq],
      ''  npm run dev -- list'',
      ''  npm run dev -- update 1700000000-ab12 applied'',
      []]"

definition printHelp :: "world \<Rightarrow> world" where
  "printHelp w = console_log helpText w"

text \<open>
  \<^verbatim>\<open>requireArg\<close>: \<open>Inl\<close> is the process after \<^verbatim>\<open>process.exit(1)\<close>, \<open>Inr\<close> the value, returned
  as it was given.
\<close>

definition requireArg :: "string option \<Rightarrow> string \<Rightarrow> world \<Rightarrow> (nat \<times> world) + string" where
  "requireArg v name w =
     (case v of
        None \<Rightarrow> Inl (1, console_error (''Missing required argument: '' @ name) w)
      | Some x \<Rightarrow>
          if trim x = [] then Inl (1, console_error (''Missing required argument: '' @ name) w)
          else Inr x)"

text \<open>Reading an array at an index: \<^verbatim>\<open>undefined\<close> beyond its end.\<close>

definition at :: "'a list \<Rightarrow> nat \<Rightarrow> 'a option" where
  "at xs i = (if i < length xs then Some (xs ! i) else None)"

text \<open>\<^verbatim>\<open>Array.prototype.findIndex\<close>, \<open>None\<close> for \<open>-1\<close>.\<close>

fun findIndex :: "('a \<Rightarrow> bool) \<Rightarrow> 'a list \<Rightarrow> nat option" where
  "findIndex P [] = None"
| "findIndex P (x # xs) = (if P x then Some 0 else map_option Suc (findIndex P xs))"

text \<open>The characters of the messages outside ASCII, in UTF-8.\<close>

definition check_mark :: string where
  "check_mark = [CHR 0xE2, CHR 0x9C, CHR 0x85]"

definition em_dash :: string where
  "em_dash = [CHR 0xE2, CHR 0x80, CHR 0x94]"

definition right_arrow :: string where
  "right_arrow = [CHR 0xE2, CHR 0x86, CHR 0x92]"

definition pushpin :: string where
  "pushpin = [CHR 0xF0, CHR 0x9F, CHR 0x93, CHR 0x8C]"

definition wastebasket :: string where
  "wastebasket = [CHR 0xF0, CHR 0x9F, CHR 0x97, CHR 0x91, CHR 0xEF, CHR 0xB8, CHR 0x8F]"

text \<open>The branch \<^verbatim>\<open>command === "add"\<close> of \<^verbatim>\<open>main\<close>.\<close>

definition main_add :: "string list \<Rightarrow> env \<Rightarrow> JobApplication list \<Rightarrow> world \<Rightarrow> nat \<times> world" where
  "main_add args e jobs w =
     (case requireArg (at args 0) ''company'' w of
        Inl stop \<Rightarrow> stop
      | Inr companyV \<Rightarrow>
          (case requireArg (at args 1) ''role'' w of
             Inl stop \<Rightarrow> stop
           | Inr roleV \<Rightarrow>
               (let maybeStatus = at args 2;
                    given = (case maybeStatus of None \<Rightarrow> False | Some m \<Rightarrow> m \<noteq> [] \<and> isStatus m);
                    statusV = (case maybeStatus of
                                 None \<Rightarrow> ''saved''
                               | Some m \<Rightarrow> if given then m else ''saved'');
                    joined = join '' '' (drop (if given then 3 else 2) args);
                    notesV = (if joined = [] then None else Some joined);
                    newJob = \<lparr>id' = makeId e, company = companyV, role = roleV,
                              status = statusV, createdAt = toISOString e, notes' = notesV\<rparr>;
                    updated = newJob # jobs;
                    w1 = saveJobs updated w;
                    w2 = console_log (check_mark @ '' Added: '' @ company newJob @ '' '' @ em_dash
                           @ '' '' @ role newJob @ '' ('' @ status newJob @ '')'') w1;
                    w3 = console_log (''   id: '' @ id' newJob) w2
                in (0, w3))))"

text \<open>The body of the loop of the branch \<^verbatim>\<open>command === "list"\<close>.\<close>

definition print_job :: "env \<Rightarrow> world \<Rightarrow> JobApplication \<Rightarrow> world" where
  "print_job e w j =
     (let w1 = console_log (''- '' @ company j @ '' '' @ em_dash @ '' '' @ role j) w;
          w2 = console_log (''  id: '' @ id' j) w1;
          w3 = console_log (''  status: '' @ status j) w2;
          w4 = console_log (''  created: '' @ toLocaleString e (createdAt j)) w3;
          w5 = (case notes' j of
                  None \<Rightarrow> w4
                | Some n \<Rightarrow> if n \<noteq> [] then console_log (''  notes: '' @ n) w4 else w4)
      in console_log [] w5)"

definition no_jobs_message :: string where
  "no_jobs_message = ''No jobs saved yet. Add one with: npm run dev -- add '' @ [dq] @ ''Company''
     @ [dq] @ '' '' @ [dq] @ ''Role'' @ [dq]"

definition main_list :: "env \<Rightarrow> JobApplication list \<Rightarrow> world \<Rightarrow> nat \<times> world" where
  "main_list e jobs w =
     (if length jobs = 0 then (0, console_log no_jobs_message w)
      else
        (let w1 = console_log ([nl] @ pushpin @ '' Job Applications ('' @ show_nat (length jobs)
                     @ '')'' @ [nl]) w
         in (0, foldl (print_job e) w1 jobs)))"

text \<open>The branch \<^verbatim>\<open>command === "update"\<close>.\<close>

definition main_update :: "string list \<Rightarrow> JobApplication list \<Rightarrow> world \<Rightarrow> nat \<times> world" where
  "main_update args jobs w =
     (case requireArg (at args 0) ''id'' w of
        Inl stop \<Rightarrow> stop
      | Inr i \<Rightarrow>
          (case requireArg (at args 1) ''status'' w of
             Inl stop \<Rightarrow> stop
           | Inr newStatusRaw \<Rightarrow>
               if \<not> isStatus newStatusRaw then
                 (1, printHelp (console_error (''Invalid status: '' @ newStatusRaw) w))
               else
                 (case findIndex (\<lambda>j. id' j = i) jobs of
                    None \<Rightarrow> (1, console_error (''No job found with id: '' @ i) w)
                  | Some idx \<Rightarrow>
                      (let jobs' = jobs[idx := (jobs ! idx)\<lparr>status := newStatusRaw\<rparr>];
                           w1 = saveJobs jobs' w;
                           w2 = console_log (check_mark @ '' Updated '' @ i @ '' '' @ right_arrow
                                  @ '' '' @ newStatusRaw) w1
                       in (0, w2)))))"

text \<open>The branch \<^verbatim>\<open>command === "remove"\<close>.\<close>

definition main_remove :: "string list \<Rightarrow> JobApplication list \<Rightarrow> world \<Rightarrow> nat \<times> world" where
  "main_remove args jobs w =
     (case requireArg (at args 0) ''id'' w of
        Inl stop \<Rightarrow> stop
      | Inr i \<Rightarrow>
          (let filtered = filter (\<lambda>j. id' j \<noteq> i) jobs in
           if length filtered = length jobs then
             (1, console_error (''No job found with id: '' @ i) w)
           else
             (let w1 = saveJobs filtered w;
                  w2 = console_log (wastebasket @ '' Removed '' @ i) w1
              in (0, w2))))"

text \<open>
  \<^verbatim>\<open>main\<close>, on the tokens of the command line after the script. The result is the exit
  status and the world the process leaves: status 0 where \<^verbatim>\<open>main\<close> returns, the argument
  of \<^verbatim>\<open>process.exit\<close> where it is called. \<open>Inl\<close> is a run that the uncaught exception of
  \<^verbatim>\<open>loadJobs\<close> ends, or one whose file is outside the type the cast claims.
\<close>

definition main :: "string list \<Rightarrow> env \<Rightarrow> world \<Rightarrow> error + (nat \<times> world)" where
  "main argv e w =
     (let command = at argv 0; args = drop 1 argv in
      case loadJobs w of
        Inl err \<Rightarrow> Inl err
      | Inr jobs \<Rightarrow>
          (case command of
             None \<Rightarrow> Inr (0, printHelp w)
           | Some cmd \<Rightarrow>
               if cmd = [] \<or> cmd = ''help'' then Inr (0, printHelp w)
               else if cmd = ''add'' then Inr (main_add args e jobs w)
               else if cmd = ''list'' then Inr (main_list e jobs w)
               else if cmd = ''update'' then Inr (main_update args jobs w)
               else if cmd = ''remove'' then Inr (main_remove args jobs w)
               else Inr (0, printHelp (console_error (''Unknown command: '' @ cmd) w))))"

section \<open>Sample data\<close>

text \<open>
  Two stored applications, a world without a backing file, a world whose file holds the
  two applications, and the answers of a platform.
\<close>

definition job_acme :: JobApplication where
  "job_acme = \<lparr>id' = ''1700000000000-8f3a9c'', company = ''Acme'', role = ''Engineer'',
     status = ''applied'', createdAt = ''2023-11-14T22:13:20.000Z'',
     notes' = Some ''referral note''\<rparr>"

definition job_globex :: JobApplication where
  "job_globex = \<lparr>id' = ''1690000000000-1b2c'', company = ''Globex'', role = ''Analyst'',
     status = ''saved'', createdAt = ''2023-07-22T04:26:40.000Z'', notes' = None\<rparr>"

text \<open>An application whose id is blank, as a file written by hand can hold.\<close>

definition job_blank :: JobApplication where
  "job_blank = \<lparr>id' = '' '', company = ''Initech'', role = ''Tester'',
     status = ''saved'', createdAt = ''2023-01-01T00:00:00.000Z'', notes' = None\<rparr>"

definition fresh :: world where
  "fresh = \<lparr>data_file = None, stdout = [], stderr = []\<rparr>"

definition desk :: world where
  "desk = saveJobs [job_acme, job_globex] fresh"

definition clock :: env where
  "clock = \<lparr>date_now = 1700000500000, math_random = ''0.c4d5e6'',
     toISOString = ''2023-11-14T22:21:40.000Z'', toLocaleString = (\<lambda>d. d)\<rparr>"

section \<open>The words of the specification\<close>

text \<open>
  The tokens of \<^verbatim>\<open>add\<close> after the company and the role, as the specification reads
  them: the first one is the status if and only if it is one of the five values, and
  otherwise it begins the notes; the notes are the remaining tokens joined by single
  spaces, and are left unset when that string is empty.
\<close>

definition spec_notes :: "string list \<Rightarrow> string option" where
  "spec_notes ts = (if join '' '' ts = [] then None else Some (join '' '' ts))"

fun spec_add :: "string list \<Rightarrow> JobStatus \<times> string option" where
  "spec_add [] = (''saved'', None)"
| "spec_add (t # ts) =
     (if t = ''saved'' \<or> t = ''applied'' \<or> t = ''interview'' \<or> t = ''offer'' \<or> t = ''rejected''
      then (t, spec_notes ts)
      else (''saved'', spec_notes (t # ts)))"

section \<open>Notions used in the proofs\<close>

text \<open>
  A text that begins a value: its first character is neither white space nor a closing
  bracket. A value reads back when, at every indentation and before every rest, the parser
  returns it from its serialised form and leaves the rest.
\<close>

definition starts_value :: "string \<Rightarrow> bool" where
  "starts_value s = (case s of [] \<Rightarrow> False | c # _ \<Rightarrow> \<not> is_ws c \<and> c \<noteq> CHR '']'' \<and> c \<noteq> CHR ''}'')"

definition reads_back :: "json \<Rightarrow> bool" where
  "reads_back v = (\<forall>n rest. parse_value (stringify n v @ rest) = Some (v, rest) \<and> starts_value (stringify n v))"

section \<open>The parser consumes its input\<close>

lemma parse_chars_shorter: "parse_chars s = Some (x, r) \<Longrightarrow> length r < length s"
proof (induction s arbitrary: x r rule: parse_chars.induct)
  case 1
  then show ?case by simp
next
  case (2 c cs)
  show ?case
  proof (cases "c = dq")
    case True
    with "2.prems" show ?thesis by simp
  next
    case notq: False
    show ?thesis
    proof (cases "c = bslash")
      case False
      with notq "2.prems" obtain y where "parse_chars cs = Some (y, r)"
        by (auto split: if_splits)
      with "2.IH"(4) [OF notq False] "2.prems" notq False show ?thesis
        by (fastforce split: if_splits)
    next
      case True
      with notq "2.prems" obtain e t where cs: "cs = e # t"
        by (cases cs) auto
      show ?thesis
      proof (cases "e = CHR ''u''")
        case False
        with notq True cs "2.prems" obtain u y where u: "unescape e = Some u" "parse_chars t = Some (y, r)"
          by (auto split: option.splits)
        from "2.IH"(3) [OF notq True cs False u(1) u(2)] cs show ?thesis
          by simp
      next
        case isu: True
        with notq True cs "2.prems" obtain n where n: "hex4 t = Some n"
          by (auto split: option.splits)
        show ?thesis
        proof (cases "low_surrogate n (drop 4 t)")
          case None
          with notq True cs isu n "2.prems" obtain y where "parse_chars (drop 4 t) = Some (y, r)"
            by auto
          from "2.IH"(1) [OF notq True cs isu n None this] cs show ?thesis
            by simp
        next
          case (Some m)
          with notq True cs isu n "2.prems" obtain y where "parse_chars (drop 10 t) = Some (y, r)"
            by auto
          from "2.IH"(2) [OF notq True cs isu n Some this] cs show ?thesis
            by simp
        qed
      qed
    qed
  qed
qed

lemma digits1_shorter: "digits1 s = Some (d, r) \<Longrightarrow> length r < length s"
proof -
  assume "digits1 s = Some (d, r)"
  then have ne: "takeWhile is_digit s \<noteq> []" and r: "r = dropWhile is_digit s"
    by (auto simp: digits1_def split: if_splits)
  have "length (takeWhile is_digit s) + length (dropWhile is_digit s) = length s"
    by (metis length_append takeWhile_dropWhile_id)
  with ne r show ?thesis
    by (cases "takeWhile is_digit s") auto
qed

lemma digits1_shorter_eq: "digits1 s = Some (d, r) \<Longrightarrow> length r \<le> length s"
  using digits1_shorter by fastforce


lemma parse_number_shorter: "parse_number s = Some (x, r) \<Longrightarrow> length r < length s"
  unfolding parse_number_def Let_def
  by (auto split: list.splits if_splits option.splits prod.splits dest!: digits1_shorter)


lemma skip_ws_le: "skip_ws s = d # ds \<Longrightarrow> Suc (length ds) \<le> length s"
  using length_skip_ws [of s] by simp

lemma parse_shorter:
  "parse_value s = Some (v, r) \<Longrightarrow> length r < length s"
  "parse_elems s1 = Some (vs, r1) \<Longrightarrow> length r1 < length s1"
  "parse_members s2 = Some (ms, r2) \<Longrightarrow> length r2 < length s2"
proof (induction s and s1 and s2 arbitrary: v r and vs r1 and ms r2
    rule: parse_value_parse_elems_parse_members.induct)
  case 1
  then show ?case by (simp add: parse_value.simps)
next
  case (2 c cs)
  consider (arr) "c = CHR ''[''" | (obj) "c \<noteq> CHR ''[''" "c = CHR ''{''"
    | (str) "c \<noteq> CHR ''[''" "c \<noteq> CHR ''{''" "c = dq"
    | (other) "c \<noteq> CHR ''[''" "c \<noteq> CHR ''{''" "c \<noteq> dq"
    by blast
  then show ?case
  proof cases
    case arr
    with "2.prems" obtain d ds where sk: "skip_ws cs = d # ds"
      by (cases "skip_ws cs") (auto simp: parse_value.simps)
    show ?thesis
    proof (cases "d = CHR '']''")
      case True
      with arr sk "2.prems" have "r = ds" by (simp add: parse_value.simps)
      with skip_ws_le [OF sk] show ?thesis by simp
    next
      case False
      with arr sk "2.prems" obtain vs where "parse_elems (d # ds) = Some (vs, r)"
        by (auto simp: parse_value.simps)
      from "2.IH"(1) [OF arr sk False this] skip_ws_le [OF sk] show ?thesis by simp
    qed
  next
    case obj
    with "2.prems" obtain d ds where sk: "skip_ws cs = d # ds"
      by (cases "skip_ws cs") (auto simp: parse_value.simps)
    show ?thesis
    proof (cases "d = CHR ''}''")
      case True
      with obj sk "2.prems" have "r = ds" by (simp add: parse_value.simps)
      with skip_ws_le [OF sk] show ?thesis by simp
    next
      case False
      with obj sk "2.prems" obtain ms where "parse_members (d # ds) = Some (ms, r)"
        by (auto simp: parse_value.simps)
      from "2.IH"(2) [OF obj sk False this] skip_ws_le [OF sk] show ?thesis by simp
    qed
  next
    case str
    with "2.prems" obtain x where "parse_chars cs = Some (x, r)"
      by (auto simp: parse_value.simps)
    from parse_chars_shorter [OF this] show ?thesis by simp
  next
    case other
    with "2.prems" show ?thesis
      by (auto simp: parse_value.simps split: if_splits dest!: parse_number_shorter)
  qed
next
  case (3 s)
  from "3.prems" obtain v r where pv: "parse_value s = Some (v, r)" and lt: "length r < length s"
    and rest: "(case skip_ws r of [] \<Rightarrow> None
        | d # ds \<Rightarrow> if d = CHR '','' then map_option (apfst ((#) v)) (parse_elems (skip_ws ds))
                    else if d = CHR '']'' then Some ([v], ds) else None) = Some (vs, r1)"
    by (subst (asm) parse_elems.simps) (auto split: option.splits if_splits)
  then obtain d ds where sk: "skip_ws r = d # ds"
    by (cases "skip_ws r") auto
  have short: "length ds < length r"
    using sk by (rule skip_ws_Cons_length)
  show ?case
  proof (cases "d = CHR '',''")
    case True
    with rest sk obtain vs' where pe: "parse_elems (skip_ws ds) = Some (vs', r1)"
      by auto
    from "3.IH"(2) [OF pv refl lt sk True pe] length_skip_ws [of ds] short lt
    show ?thesis by simp
  next
    case False
    with rest sk have "r1 = ds"
      by (auto split: if_splits)
    with short lt show ?thesis by simp
  qed
next
  case 4
  then show ?case by (simp add: parse_members.simps)
next
  case (5 c cs)
  from "5.prems" have c: "c = dq"
    by (subst (asm) parse_members.simps) (auto split: if_splits)
  with "5.prems" obtain k b where pc: "parse_chars cs = Some (k, b)"
    by (subst (asm) parse_members.simps) (auto split: option.splits)
  with c "5.prems" obtain d ds where sk1: "skip_ws b = d # ds"
    by (subst (asm) parse_members.simps) (cases "skip_ws b"; auto)
  with c pc "5.prems" have colon: "d = CHR '':'' \<and> length (skip_ws ds) < length (c # cs)"
    by (subst (asm) parse_members.simps) (auto split: if_splits)
  with c pc sk1 "5.prems" obtain v r' where pv: "parse_value (skip_ws ds) = Some (v, r')"
    by (subst (asm) parse_members.simps) (auto split: option.splits)
  with c pc sk1 colon "5.prems" have lt: "length r' < length (c # cs)"
    by (subst (asm) parse_members.simps) (auto split: if_splits)
  with c pc sk1 colon pv "5.prems" obtain x xs where sk2: "skip_ws r' = x # xs"
    by (subst (asm) parse_members.simps) (cases "skip_ws r'"; auto)
  have short: "length xs < length r'"
    using sk2 by (rule skip_ws_Cons_length)
  show ?case
  proof (cases "x = CHR '',''")
    case True
    with c pc sk1 colon pv lt sk2 "5.prems" obtain ms' where pm: "parse_members (skip_ws xs) = Some (ms', r2)"
      by (subst (asm) parse_members.simps) auto
    from "5.IH"(2) [OF c pc refl sk1 colon pv refl lt sk2 True pm] length_skip_ws [of xs] short lt
    show ?thesis by simp
  next
    case False
    with c pc sk1 colon pv lt sk2 "5.prems" have "r2 = xs"
      by (subst (asm) parse_members.simps) (auto split: if_splits)
    with short lt show ?thesis by simp
  qed
qed


text \<open>So the comparisons of lengths in the parser never fail: it is the parser without them.\<close>

lemma parse_elems_unguarded:
  "parse_elems s =
     (case parse_value s of
        None \<Rightarrow> None
      | Some (v, r) \<Rightarrow>
          (case skip_ws r of
             [] \<Rightarrow> None
           | d # ds \<Rightarrow>
               if d = CHR '','' then map_option (apfst ((#) v)) (parse_elems (skip_ws ds))
               else if d = CHR '']'' then Some ([v], ds)
               else None))"
  by (subst parse_elems.simps) (auto split: option.splits dest: parse_shorter(1))

lemma parse_members_unguarded:
  "parse_members (c # cs) =
     (if c = dq then
        (case parse_chars cs of
           None \<Rightarrow> None
         | Some (k, r) \<Rightarrow>
             (case skip_ws r of
                [] \<Rightarrow> None
              | d # ds \<Rightarrow>
                  if d = CHR '':'' then
                    (case parse_value (skip_ws ds) of
                       None \<Rightarrow> None
                     | Some (v, r') \<Rightarrow>
                         (case skip_ws r' of
                            [] \<Rightarrow> None
                          | x # xs \<Rightarrow>
                              if x = CHR '','' then
                                map_option (apfst ((#) (k, v))) (parse_members (skip_ws xs))
                              else if x = CHR ''}'' then Some ([(k, v)], xs)
                              else None))
                  else None))
      else None)"
proof -
  have a: "length (skip_ws ds) < length (c # cs)"
    if "parse_chars cs = Some (k, r)" "skip_ws r = d # ds" for k r d ds
    using parse_chars_shorter [OF that(1)] skip_ws_Cons_length [OF that(2)] length_skip_ws [of ds]
    by simp
  have b: "length r' < length (c # cs)"
    if "parse_chars cs = Some (k, r)" "skip_ws r = d # ds" "parse_value (skip_ws ds) = Some (v, r')"
    for k r d ds v r'
    using a [OF that(1,2)] parse_shorter(1) [OF that(3)] by simp
  show ?thesis
    by (subst parse_members.simps) (auto split: option.splits list.splits dest: a b)
qed

section \<open>Reading back what was written\<close>

lemma hexVal_hexDigit: "k < 16 \<Longrightarrow> hexVal (hexDigit k) = Some k"
  by (auto simp: hexVal_def hexDigit_def Let_def)

lemma hex4_control:
  "n < 32 \<Longrightarrow> hex4 (CHR ''0'' # CHR ''0'' # hexDigit (n div 16) # hexDigit (n mod 16) # t) = Some n"
proof -
  assume n: "n < 32"
  have z: "hexVal CHR ''0'' = Some 0" by (simp add: hexVal_def)
  have a: "hexVal (hexDigit (n div 16)) = Some (n div 16)" using n by (intro hexVal_hexDigit) simp
  have b: "hexVal (hexDigit (n mod 16)) = Some (n mod 16)" by (intro hexVal_hexDigit) simp
  show ?thesis by (simp add: hex4_def z a b)
qed

lemma low_surrogate_small: "n < 0xD800 \<Longrightarrow> low_surrogate n s = None"
  by (simp add: low_surrogate_def)

lemma parse_chars_quoteChar:
  "parse_chars (quoteChar c @ t) = map_option (apfst ((#) c)) (parse_chars t)"
proof -
  consider (short) "c \<in> {CHR 0x08, CHR 0x09, CHR 0x0A, CHR 0x0C, CHR 0x0D, dq, bslash}"
    | (ctl) "c \<notin> {CHR 0x08, CHR 0x09, CHR 0x0A, CHR 0x0C, CHR 0x0D, dq, bslash}" "(of_char c :: nat) < 0x20"
    | (plain) "c \<notin> {CHR 0x08, CHR 0x09, CHR 0x0A, CHR 0x0C, CHR 0x0D, dq, bslash}" "\<not> (of_char c :: nat) < 0x20"
    by blast
  then show ?thesis
  proof cases
    case short
    then show ?thesis
      by (auto simp: quoteChar_def unescape_def dq_def bslash_def)
  next
    case ctl
    let ?n = "of_char c :: nat"
    have q: "quoteChar c = [bslash, CHR ''u'', CHR ''0'', CHR ''0'', hexDigit (?n div 16), hexDigit (?n mod 16)]"
      using ctl by (simp add: quoteChar_def)
    have h: "hex4 (CHR ''0'' # CHR ''0'' # hexDigit (?n div 16) # hexDigit (?n mod 16) # t) = Some ?n"
      using ctl(2) by (intro hex4_control) simp
    have l: "low_surrogate ?n t = None" using ctl(2) by (intro low_surrogate_small) simp
    have u: "utf8 ?n = [c]" using ctl(2) by (simp add: utf8_def)
    have e: "(@) [c] = (#) c" by (rule ext) simp
    show ?thesis
      by (simp add: q h l u e bslash_def dq_def)
  next
    case plain
    then show ?thesis
      by (simp add: quoteChar_def)
  qed
qed

lemma parse_chars_quoted:
  "parse_chars (concat (map quoteChar s) @ dq # rest) = Some (s, rest)"
  by (induction s) (simp_all add: parse_chars_quoteChar)


lemma skip_ws_nl [simp]: "skip_ws (nl # s) = skip_ws s"
  by (simp add: skip_ws_def is_ws_def nl_def)

lemma skip_ws_indent [simp]: "skip_ws (indent n @ s) = skip_ws s"
  by (induction n) (simp_all add: indent_def skip_ws_def is_ws_def)

lemma skip_ws_space [simp]: "skip_ws (CHR '' '' # s) = skip_ws s"
  by (simp add: skip_ws_def is_ws_def)

lemma skip_ws_starts_value: "starts_value s \<Longrightarrow> skip_ws (s @ t) = s @ t"
  by (cases s) (simp_all add: starts_value_def skip_ws_def)

lemma skip_ws_punct [simp]:
  "skip_ws (CHR '','' # s) = CHR '','' # s"
  "skip_ws (CHR '':'' # s) = CHR '':'' # s"
  "skip_ws (CHR '']'' # s) = CHR '']'' # s"
  "skip_ws (CHR ''}'' # s) = CHR ''}'' # s"
  "skip_ws (dq # s) = dq # s"
  by (simp_all add: skip_ws_def is_ws_def dq_def)

lemma starts_value_quote: "starts_value (quoteJSONString s)"
  by (simp add: starts_value_def quoteJSONString_def dq_def is_ws_def)

lemma starts_value_nonempty: "starts_value s \<Longrightarrow> s \<noteq> []"
  by (auto simp: starts_value_def)

lemma parse_value_quoted: "parse_value (quoteJSONString s @ rest) = Some (JStr s, rest)"
  by (simp add: quoteJSONString_def parse_value.simps parse_chars_quoted) (simp add: dq_def)

lemma reads_back_JStr: "reads_back (JStr s)"
  by (simp add: reads_back_def parse_value_quoted starts_value_quote)

lemma reads_back_JNull: "reads_back JNull"
  by (simp add: reads_back_def parse_value.simps starts_value_def is_ws_def dq_def)

lemma reads_back_JBool: "reads_back (JBool b)"
  by (simp add: reads_back_def parse_value.simps starts_value_def is_ws_def dq_def)

lemma parse_members_step:
  assumes "reads_back v"
  shows "parse_members (quoteJSONString k @ '': '' @ stringify n v @ Y) =
     (case skip_ws Y of
        [] \<Rightarrow> None
      | x # xs \<Rightarrow>
          if x = CHR '','' then map_option (apfst ((#) (k, v))) (parse_members (skip_ws xs))
          else if x = CHR ''}'' then Some ([(k, v)], xs)
          else None)"
proof -
  have pv: "parse_value (stringify n v @ Y) = Some (v, Y)" and sv: "starts_value (stringify n v)"
    using assms by (simp_all add: reads_back_def)
  have ne: "stringify n v \<noteq> []" using sv by (rule starts_value_nonempty)
  have sk: "skip_ws (stringify n v @ Y) = stringify n v @ Y"
    using sv by (rule skip_ws_starts_value)
  have shape: "quoteJSONString k @ '': '' @ stringify n v @ Y
      = dq # (concat (map quoteChar k) @ dq # (CHR '':'' # CHR '' '' # stringify n v @ Y))"
    by (simp add: quoteJSONString_def)
  show ?thesis
    unfolding shape
    by (simp add: parse_members.simps parse_chars_quoted sk pv)
qed

lemma stringify_members_starts:
  assumes "ms \<noteq> []"
  shows "skip_ws (join sep (stringify_members n ms) @ t) = join sep (stringify_members n ms) @ t"
proof -
  obtain m ms' where "ms = m # ms'"
    using assms by (cases ms) auto
  then show ?thesis
    by (cases ms') (simp_all add: quoteJSONString_def)
qed

lemma parse_members_fields:
  assumes "ms \<noteq> []" and "\<forall>m \<in> set ms. reads_back (snd m)"
  shows "parse_members (join (CHR '','' # nl # indent k) (stringify_members k ms)
            @ nl # indent j @ CHR ''}'' # rest) = Some (ms, rest)"
  using assms
proof (induction ms rule: list_nonempty_induct)
  case (single m)
  then have rb: "reads_back (snd m)" by simp
  show ?case
    using parse_members_step [OF rb, of "fst m" k "nl # indent j @ CHR ''}'' # rest"]
    by simp
next
  case (cons m ms)
  then have rb: "reads_back (snd m)" and rest: "\<forall>m \<in> set ms. reads_back (snd m)" by simp_all
  let ?tail = "join (CHR '','' # nl # indent k) (stringify_members k ms)
                 @ nl # indent j @ CHR ''}'' # rest"
  obtain m' ms' where ms: "ms = m' # ms'" using cons.hyps by (cases ms) auto
  have ih: "parse_members ?tail = Some (ms, rest)"
    using cons.IH rest by simp
  have sk: "skip_ws ?tail = ?tail"
    using cons.hyps by (rule stringify_members_starts)
  have shape: "join (CHR '','' # nl # indent k) (stringify_members k (m # ms))
                 @ nl # indent j @ CHR ''}'' # rest
      = quoteJSONString (fst m) @ '': '' @ stringify k (snd m) @ CHR '','' # nl # indent k @ ?tail"
    by (simp add: ms)
  show ?case
    unfolding shape
    using parse_members_step [OF rb, of "fst m" k "CHR '','' # nl # indent k @ ?tail"]
    by (simp add: sk ih)
qed

lemma reads_back_JObj:
  assumes "\<forall>m \<in> set ms. reads_back (snd m)"
  shows "reads_back (JObj ms)"
proof (cases "ms = []")
  case True
  then show ?thesis
    by (simp add: reads_back_def parse_value.simps starts_value_def is_ws_def)
next
  case False
  have sv: "starts_value (stringify n (JObj ms))" for n
    using False by (simp add: starts_value_def is_ws_def)
  have pv: "parse_value (stringify n (JObj ms) @ rest) = Some (JObj ms, rest)" for n rest
  proof -
    define k where "k = n + 2"
    define body where "body = join (CHR '','' # nl # indent k) (stringify_members k ms)
                   @ nl # indent n @ CHR ''}'' # rest"
    have shape: "stringify n (JObj ms) @ rest = CHR ''{'' # nl # indent k @ body"
      using False by (simp add: k_def body_def)
    obtain ds where body: "body = dq # ds"
      using False unfolding body_def by (cases ms; cases "tl ms") (auto simp: quoteJSONString_def)
    have sk: "skip_ws body = dq # ds"
      by (simp add: body)
    have dqb: "dq \<noteq> CHR ''}''"
      by (simp add: dq_def)
    have pm: "parse_members (dq # ds) = Some (ms, rest)"
      using parse_members_fields [OF False assms, of k n rest] body by (simp add: body_def)
    have "parse_value (CHR ''{'' # nl # indent k @ body) = Some (JObj ms, rest)"
      by (subst parse_value.simps) (simp add: sk pm dqb)
    then show ?thesis
      by (simp only: shape)
  qed
  show ?thesis
    unfolding reads_back_def using sv pv by blast
qed

lemma parse_elems_step:
  assumes "reads_back v"
  shows "parse_elems (stringify n v @ Y) =
     (case skip_ws Y of
        [] \<Rightarrow> None
      | x # xs \<Rightarrow>
          if x = CHR '','' then map_option (apfst ((#) v)) (parse_elems (skip_ws xs))
          else if x = CHR '']'' then Some ([v], xs)
          else None)"
proof -
  have pv: "parse_value (stringify n v @ Y) = Some (v, Y)" and sv: "starts_value (stringify n v)"
    using assms by (simp_all add: reads_back_def)
  have ne: "stringify n v \<noteq> []" using sv by (rule starts_value_nonempty)
  show ?thesis
    by (subst parse_elems.simps) (simp add: pv ne)
qed

lemma stringify_elems_starts:
  assumes "vs \<noteq> []" and "\<forall>v \<in> set vs. reads_back v"
  shows "starts_value (join sep (stringify_elems n vs) @ t)"
proof -
  obtain v vs' where vs: "vs = v # vs'" using assms(1) by (cases vs) auto
  then have "starts_value (stringify n v)" using assms(2) by (simp add: reads_back_def)
  then show ?thesis
    unfolding vs by (cases vs'; cases "stringify n v") (simp_all add: starts_value_def)
qed

lemma parse_elems_values:
  assumes "vs \<noteq> []" and "\<forall>v \<in> set vs. reads_back v"
  shows "parse_elems (join (CHR '','' # nl # indent k) (stringify_elems k vs)
            @ nl # indent j @ CHR '']'' # rest) = Some (vs, rest)"
  using assms
proof (induction vs rule: list_nonempty_induct)
  case (single v)
  then have rb: "reads_back v" by simp
  show ?case
    using parse_elems_step [OF rb, of k "nl # indent j @ CHR '']'' # rest"]
    by simp
next
  case (cons v vs)
  then have rb: "reads_back v" and rest: "\<forall>v \<in> set vs. reads_back v" by simp_all
  let ?tail = "join (CHR '','' # nl # indent k) (stringify_elems k vs) @ nl # indent j @ CHR '']'' # rest"
  obtain v' vs' where vs: "vs = v' # vs'" using cons.hyps by (cases vs) auto
  have ih: "parse_elems ?tail = Some (vs, rest)"
    using cons.IH rest by simp
  have "starts_value (?tail @ [])"
    using stringify_elems_starts [OF cons.hyps rest, of "CHR '','' # nl # indent k" k "nl # indent j @ CHR '']'' # rest"]
    by simp
  then have sk: "skip_ws ?tail = ?tail"
    using skip_ws_starts_value [of ?tail "[]"] by simp
  have shape: "join (CHR '','' # nl # indent k) (stringify_elems k (v # vs)) @ nl # indent j @ CHR '']'' # rest
      = stringify k v @ CHR '','' # nl # indent k @ ?tail"
    by (simp add: vs)
  show ?case
    unfolding shape
    using parse_elems_step [OF rb, of k "CHR '','' # nl # indent k @ ?tail"]
    by (simp add: sk ih)
qed

lemma reads_back_JArr:
  assumes "\<forall>v \<in> set vs. reads_back v"
  shows "reads_back (JArr vs)"
proof (cases "vs = []")
  case True
  then show ?thesis
    by (simp add: reads_back_def parse_value.simps starts_value_def is_ws_def)
next
  case False
  have sv: "starts_value (stringify n (JArr vs))" for n
    using False by (simp add: starts_value_def is_ws_def)
  have pv: "parse_value (stringify n (JArr vs) @ rest) = Some (JArr vs, rest)" for n rest
  proof -
    define k where "k = n + 2"
    define body where "body = join (CHR '','' # nl # indent k) (stringify_elems k vs)
                   @ nl # indent n @ CHR '']'' # rest"
    have shape: "stringify n (JArr vs) @ rest = CHR ''['' # nl # indent k @ body"
      using False by (simp add: k_def body_def)
    have st: "starts_value body"
      unfolding body_def using stringify_elems_starts [OF False assms] by simp
    then obtain d ds where body: "body = d # ds" and d: "d \<noteq> CHR '']''" "\<not> is_ws d"
      by (cases body) (auto simp: starts_value_def)
    have "skip_ws body = body"
      using skip_ws_starts_value [OF st, of "[]"] by simp
    then have sk: "skip_ws body = d # ds"
      by (simp add: body)
    have pe: "parse_elems (d # ds) = Some (vs, rest)"
      using parse_elems_values [OF False assms, of k n rest] body by (simp add: body_def)
    have "parse_value (CHR ''['' # nl # indent k @ body) = Some (JArr vs, rest)"
      by (subst parse_value.simps) (simp add: sk pe d)
    then show ?thesis
      by (simp only: shape)
  qed
  show ?thesis
    unfolding reads_back_def using sv pv by blast
qed

lemma reads_back_toJSON: "reads_back (toJSON j)"
  unfolding toJSON_def
  by (rule reads_back_JObj) (auto simp: reads_back_JStr split: option.splits)

lemma skip_ws_Nil [simp]: "skip_ws [] = []"
  by (simp add: skip_ws_def)

lemma JSON_parse_stringify_jobs:
  "JSON_parse (JSON_stringify (JArr (map toJSON jobs))) = Inr (JArr (map toJSON jobs))"
proof -
  define t where "t = stringify 0 (JArr (map toJSON jobs))"
  have "reads_back (JArr (map toJSON jobs))"
    by (rule reads_back_JArr) (simp add: reads_back_toJSON)
  then have "parse_value (t @ []) = Some (JArr (map toJSON jobs), [])" and sv: "starts_value t"
    unfolding reads_back_def t_def by blast+
  then have pv: "parse_value t = Some (JArr (map toJSON jobs), [])"
    by simp
  have sk: "skip_ws t = t"
    using skip_ws_starts_value [OF sv, of "[]"] by simp
  have "JSON_parse t = Inr (JArr (map toJSON jobs))"
    by (simp add: JSON_parse_def sk pv)
  then show ?thesis
    by (simp only: JSON_stringify_def t_def)
qed

lemma asJobApplication_toJSON: "asJobApplication (toJSON j) = Some j"
  by (cases "notes' j") (simp_all add: asJobApplication_def toJSON_def property_def)

lemma asJobApplications_toJSON: "asJobApplications (JArr (map toJSON jobs)) = Some jobs"
proof -
  have "those (map asJobApplication (map toJSON jobs)) = Some jobs"
    by (induction jobs) (simp_all add: asJobApplication_toJSON)
  then show ?thesis
    by (simp add: asJobApplications_def)
qed

lemma loadJobs_saveJobs: "loadJobs (saveJobs jobs w) = Inr jobs"
  by (simp add: loadJobs_def saveJobs_def JSON_parse_stringify_jobs asJobApplications_toJSON)

lemma data_file_saveJobs: "data_file (saveJobs jobs w) = Some (JSON_stringify (JArr (map toJSON jobs)))"
  by (simp add: saveJobs_def)

section \<open>The store and the output streams\<close>

lemma data_file_console [simp]:
  "data_file (console_log m w) = data_file w"
  "data_file (console_error m w) = data_file w"
  "data_file (printHelp w) = data_file w"
  by (simp_all add: console_log_def console_error_def printHelp_def)

lemma loadJobs_console [simp]:
  "loadJobs (console_log m w) = loadJobs w"
  "loadJobs (console_error m w) = loadJobs w"
  "loadJobs (printHelp w) = loadJobs w"
  by (simp_all add: loadJobs_def)

lemma loadJobs_fresh: "loadJobs fresh = Inr []"
  by (simp add: loadJobs_def fresh_def)

section \<open>Arguments\<close>

lemma isStatus_cases:
  "isStatus s \<Longrightarrow>
     s = ''saved'' \<or> s = ''applied'' \<or> s = ''interview'' \<or> s = ''offer'' \<or> s = ''rejected''"
  by (simp add: isStatus_def)

lemma trim_statuses:
  "trim ''saved'' = ''saved''" "trim ''applied'' = ''applied''"
  "trim ''interview'' = ''interview''" "trim ''offer'' = ''offer''"
  "trim ''rejected'' = ''rejected''"
  by code_simp+

lemma isStatus_not_blank:
  assumes "isStatus s"
  shows "trim s \<noteq> []"
  using isStatus_cases [OF assms]
  by (elim disjE) (simp_all only: trim_statuses, simp_all)

lemma requireArg_given: "trim x \<noteq> [] \<Longrightarrow> requireArg (Some x) name w = Inr x"
  by (simp add: requireArg_def)

lemma requireArg_blank:
  "trim x = [] \<Longrightarrow> requireArg (Some x) name w
     = Inl (1, console_error (''Missing required argument: '' @ name) w)"
  by (simp add: requireArg_def)

lemma requireArg_absent:
  "requireArg None name w = Inl (1, console_error (''Missing required argument: '' @ name) w)"
  by (simp add: requireArg_def)

lemma at_Cons [simp]:
  "at (x # xs) 0 = Some x" "at (x # xs) (Suc n) = at xs n" "at [] n = None"
  "at (x # xs) 1 = at xs 0" "at (x # xs) 2 = at xs 1"
  by (simp_all add: at_def)

lemma isStatus_iff:
  "isStatus t \<longleftrightarrow>
     t = ''saved'' \<or> t = ''applied'' \<or> t = ''interview'' \<or> t = ''offer'' \<or> t = ''rejected''"
  by (simp add: isStatus_def)

lemma isStatus_nonempty: "isStatus t \<Longrightarrow> t \<noteq> []"
  by (auto simp: isStatus_iff)

lemma findIndex_None: "findIndex P xs = None \<longleftrightarrow> (\<forall>x \<in> set xs. \<not> P x)"
  by (induction xs) auto

lemma findIndex_Some:
  "findIndex P xs = Some i \<Longrightarrow> i < length xs \<and> P (xs ! i) \<and> (\<forall>k < i. \<not> P (xs ! k))"
proof (induction xs arbitrary: i)
  case Nil
  then show ?case by simp
next
  case (Cons x xs)
  show ?case
  proof (cases "P x")
    case True
    with Cons.prems show ?thesis by simp
  next
    case False
    with Cons.prems obtain k where k: "findIndex P xs = Some k" "i = Suc k" by auto
    from Cons.IH [OF k(1)] False k(2) show ?thesis
      by (auto simp: less_Suc_eq_0_disj)
  qed
qed


lemma filter_same_length: "length (filter P xs) = length xs \<longleftrightarrow> (\<forall>x \<in> set xs. P x)"
proof -
  have "length (filter P xs) + length (filter (\<lambda>x. \<not> P x) xs) = length xs"
    by (rule sum_length_filter_compl)
  then have "length (filter P xs) = length xs \<longleftrightarrow> filter (\<lambda>x. \<not> P x) xs = []"
    by auto
  then show ?thesis
    by (simp add: filter_empty_conv)
qed

lemma length_filter_split:
  "length (filter (\<lambda>j. \<not> P j) xs) + length (filter P xs) = length xs"
  by (induction xs) simp_all

lemma list_update_same_status:
  assumes "idx < length jobs" and "status (jobs ! idx) = s"
  shows "jobs[idx := (jobs ! idx)\<lparr>status := s\<rparr>] = jobs"
proof -
  have "(jobs ! idx)\<lparr>status := s\<rparr> = jobs ! idx"
    using assms(2) by (cases "jobs ! idx") auto
  then show ?thesis
    by simp
qed

lemma findIndex_update_status:
  "findIndex (\<lambda>j. id' j = X) (jobs[k := (jobs ! k)\<lparr>status := s\<rparr>]) = findIndex (\<lambda>j. id' j = X) jobs"
proof (induction jobs arbitrary: k)
  case Nil
  show ?case by simp
next
  case (Cons j jobs)
  show ?case
    by (cases k) (simp_all add: Cons.IH)
qed

section \<open>The commands, case by case\<close>

lemma main_update: "loadJobs w = Inr jobs \<Longrightarrow> main (''update'' # args) e w = Inr (main_update args jobs w)"
  by (simp add: main_def)

lemma main_remove: "loadJobs w = Inr jobs \<Longrightarrow> main (''remove'' # args) e w = Inr (main_remove args jobs w)"
  by (simp add: main_def)

lemma main_add: "loadJobs w = Inr jobs \<Longrightarrow> main (''add'' # args) e w = Inr (main_add args e jobs w)"
  by (simp add: main_def)

lemma loadJobs_saved: "loadJobs (console_log m (saveJobs jobs w)) = Inr jobs"
  by (simp add: loadJobs_saveJobs)

lemma status_update_same: "j\<lparr>status := status j\<rparr> = j"
  by simp

lemma loadJobs_added: "loadJobs (console_log m (console_log n (saveJobs jobs w))) = Inr jobs"
  by (simp add: loadJobs_saveJobs)

lemma loadJobs_desk: "loadJobs desk = Inr [job_acme, job_globex]"
  by (simp add: desk_def loadJobs_saveJobs)

text \<open>What \<open>main_add\<close> does, by cases on its arguments.\<close>

lemma main_add_blank_company:
  "trim c = [] \<Longrightarrow> main_add (c # rest) e jobs w
     = (1, console_error ''Missing required argument: company'' w)"
  by (simp add: main_add_def requireArg_blank)

lemma main_add_blank_role:
  "trim c \<noteq> [] \<Longrightarrow> trim r = [] \<Longrightarrow> main_add (c # r # rest) e jobs w
     = (1, console_error ''Missing required argument: role'' w)"
  by (simp add: main_add_def requireArg_blank requireArg_given)

lemma main_add_given:
  assumes "trim c \<noteq> []" and "trim r \<noteq> []"
  shows "main_add (c # r # rest) e jobs w
     = (0, console_log (''   id: '' @ makeId e)
            (console_log (check_mark @ '' Added: '' @ c @ '' '' @ em_dash @ '' '' @ r
                           @ '' ('' @ fst (spec_add rest) @ '')'')
              (saveJobs (\<lparr>id' = makeId e, company = c, role = r, status = fst (spec_add rest),
                           createdAt = toISOString e, notes' = snd (spec_add rest)\<rparr> # jobs) w)))"
proof (cases rest)
  case Nil
  then show ?thesis
    using assms by (simp add: main_add_def requireArg_given Let_def)
next
  case (Cons t ts)
  show ?thesis
  proof (cases "isStatus t")
    case True
    then have "t \<noteq> []" by (rule isStatus_nonempty)
    then show ?thesis
      using assms True Cons isStatus_iff [of t]
      by (simp add: main_add_def requireArg_given Let_def spec_notes_def)
  next
    case False
    then show ?thesis
      using assms Cons isStatus_iff [of t]
      by (simp add: main_add_def requireArg_given Let_def spec_notes_def)
  qed
qed

text \<open>What \<open>main_update\<close> does, by cases on its arguments.\<close>

lemma main_update_blank_id:
  "trim X = [] \<Longrightarrow> main_update (X # extra) jobs w
     = (1, console_error ''Missing required argument: id'' w)"
  by (simp add: main_update_def requireArg_blank)

lemma main_update_not_found:
  assumes "trim X \<noteq> []" and "isStatus s" and "X \<notin> id' ` set jobs"
  shows "main_update (X # s # extra) jobs w = (1, console_error (''No job found with id: '' @ X) w)"
proof -
  have "findIndex (\<lambda>j. id' j = X) jobs = None"
    using assms(3) by (auto simp: findIndex_None)
  then show ?thesis
    using assms(1,2)
    by (simp add: main_update_def requireArg_given isStatus_not_blank)
qed

lemma main_update_found:
  assumes "trim X \<noteq> []" and "isStatus s" and "findIndex (\<lambda>j. id' j = X) jobs = Some idx"
  shows "main_update (X # s # extra) jobs w
     = (0, console_log (check_mark @ '' Updated '' @ X @ '' '' @ right_arrow @ '' '' @ s)
             (saveJobs (jobs[idx := (jobs ! idx)\<lparr>status := s\<rparr>]) w))"
  using assms
  by (simp add: main_update_def requireArg_given isStatus_not_blank Let_def)

text \<open>What \<open>main_remove\<close> does, by cases on its argument.\<close>

lemma main_remove_blank_id:
  "trim X = [] \<Longrightarrow> main_remove (X # extra) jobs w
     = (1, console_error ''Missing required argument: id'' w)"
  by (simp add: main_remove_def requireArg_blank)

lemma main_remove_not_found:
  assumes "trim X \<noteq> []" and "X \<notin> id' ` set jobs"
  shows "main_remove (X # extra) jobs w = (1, console_error (''No job found with id: '' @ X) w)"
proof -
  have "length (filter (\<lambda>j. id' j \<noteq> X) jobs) = length jobs"
    using assms(2) by (auto simp: filter_same_length)
  then show ?thesis
    using assms(1) by (simp add: main_remove_def requireArg_given)
qed

lemma main_remove_found:
  assumes "trim X \<noteq> []" and "X \<in> id' ` set jobs"
  shows "main_remove (X # extra) jobs w
     = (0, console_log (wastebasket @ '' Removed '' @ X) (saveJobs (filter (\<lambda>j. id' j \<noteq> X) jobs) w))"
proof -
  have "length (filter (\<lambda>j. id' j \<noteq> X) jobs) \<noteq> length jobs"
    using assms(2) by (auto simp: filter_same_length)
  then show ?thesis
    using assms(1) by (simp add: main_remove_def requireArg_given Let_def)
qed

text \<open>What each command leaves in the store, for every list of arguments.\<close>

lemma main_add_store:
  assumes load: "loadJobs w = Inr jobs"
  shows "\<exists>code w' jobs'. main_add args e jobs w = (code, w')
    \<and> loadJobs w' = Inr jobs' \<and> (jobs' = jobs \<or> (\<exists>j. jobs' = j # jobs))"
proof -
  consider (none) "args = []"
    | (blank) c rest where "args = c # rest" "trim c = []"
    | (one) c where "args = [c]" "trim c \<noteq> []"
    | (blank_role) c r rest where "args = c # r # rest" "trim c \<noteq> []" "trim r = []"
    | (given) c r rest where "args = c # r # rest" "trim c \<noteq> []" "trim r \<noteq> []"
    by (cases args; cases "tl args") auto
  then show ?thesis
  proof cases
    case none
    then have "main_add args e jobs w = (1, console_error ''Missing required argument: company'' w)"
      by (simp add: main_add_def requireArg_absent)
    then show ?thesis using load by simp
  next
    case blank
    then have "main_add args e jobs w = (1, console_error ''Missing required argument: company'' w)"
      by (simp add: main_add_blank_company)
    then show ?thesis using load by simp
  next
    case one
    then have "main_add args e jobs w = (1, console_error ''Missing required argument: role'' w)"
      by (simp add: main_add_def requireArg_given requireArg_absent)
    then show ?thesis using load by simp
  next
    case blank_role
    then have "main_add args e jobs w = (1, console_error ''Missing required argument: role'' w)"
      by (simp add: main_add_blank_role)
    then show ?thesis using load by simp
  next
    case given
    then show ?thesis
      by (simp add: main_add_given loadJobs_saveJobs)
  qed
qed

lemma main_update_store:
  assumes load: "loadJobs w = Inr jobs"
  shows "\<exists>code w' jobs'. main_update args jobs w = (code, w')
    \<and> loadJobs w' = Inr jobs' \<and> length jobs' = length jobs
    \<and> (\<forall>i < length jobs. jobs' ! i = (jobs ! i)\<lparr>status := status (jobs' ! i)\<rparr>)"
proof -
  consider (none) "args = []"
    | (blank) X rest where "args = X # rest" "trim X = []"
    | (one) X where "args = [X]" "trim X \<noteq> []"
    | (stop) X s rest where "args = X # s # rest" "trim X \<noteq> []" "\<not> isStatus s"
    | (absent) X s rest where "args = X # s # rest" "trim X \<noteq> []" "isStatus s"
        "findIndex (\<lambda>j. id' j = X) jobs = None"
    | (found) X s rest idx where "args = X # s # rest" "trim X \<noteq> []" "isStatus s"
        "findIndex (\<lambda>j. id' j = X) jobs = Some idx"
    by (cases args; cases "tl args"; cases "findIndex (\<lambda>j. id' j = hd args) jobs") auto
  then show ?thesis
  proof cases
    case none
    then have "main_update args jobs w = (1, console_error ''Missing required argument: id'' w)"
      by (simp add: main_update_def requireArg_absent)
    then show ?thesis using load by simp
  next
    case blank
    then have "main_update args jobs w = (1, console_error ''Missing required argument: id'' w)"
      by (simp add: main_update_blank_id)
    then show ?thesis using load by simp
  next
    case one
    then have "main_update args jobs w = (1, console_error ''Missing required argument: status'' w)"
      by (simp add: main_update_def requireArg_given requireArg_absent)
    then show ?thesis using load by simp
  next
    case stop
    then have "main_update args jobs w
      = (1, if trim s = [] then console_error ''Missing required argument: status'' w
            else printHelp (console_error (''Invalid status: '' @ s) w))"
      by (simp add: main_update_def requireArg_given requireArg_def)
    then show ?thesis using load by simp
  next
    case absent
    then have "X \<notin> id' ` set jobs"
      by (auto simp: findIndex_None)
    with absent have "main_update args jobs w = (1, console_error (''No job found with id: '' @ X) w)"
      by (simp add: main_update_not_found)
    then show ?thesis using load by simp
  next
    case found
    let ?jobs = "jobs[idx := (jobs ! idx)\<lparr>status := s\<rparr>]"
    have each: "?jobs ! i = (jobs ! i)\<lparr>status := status (?jobs ! i)\<rparr>" if "i < length jobs" for i
      using that by (cases "i = idx") simp_all
    show ?thesis
      using found each by (simp add: main_update_found loadJobs_saveJobs)
  qed
qed

lemma main_remove_store:
  assumes load: "loadJobs w = Inr jobs"
  shows "\<exists>code w' jobs'. main_remove args jobs w = (code, w')
    \<and> loadJobs w' = Inr jobs'
    \<and> (jobs' = jobs \<or> (\<exists>X. jobs' = filter (\<lambda>j. id' j \<noteq> X) jobs))"
proof -
  consider (none) "args = []"
    | (blank) X rest where "args = X # rest" "trim X = []"
    | (absent) X rest where "args = X # rest" "trim X \<noteq> []" "X \<notin> id' ` set jobs"
    | (found) X rest where "args = X # rest" "trim X \<noteq> []" "X \<in> id' ` set jobs"
    by (cases args) auto
  then show ?thesis
  proof cases
    case none
    then have "main_remove args jobs w = (1, console_error ''Missing required argument: id'' w)"
      by (simp add: main_remove_def requireArg_absent)
    then show ?thesis using load by simp
  next
    case blank
    then have "main_remove args jobs w = (1, console_error ''Missing required argument: id'' w)"
      by (simp add: main_remove_blank_id)
    then show ?thesis using load by simp
  next
    case absent
    then have "main_remove args jobs w = (1, console_error (''No job found with id: '' @ X) w)"
      by (simp add: main_remove_not_found)
    then show ?thesis using load by simp
  next
    case found
    then have "main_remove args jobs w
      = (0, console_log (wastebasket @ '' Removed '' @ X) (saveJobs (filter (\<lambda>j. id' j \<noteq> X) jobs) w))"
      by (simp add: main_remove_found)
    then show ?thesis
      by (auto simp: loadJobs_saveJobs)
  qed
qed

section \<open>The claims\<close>

text \<open>
  C1. The claim is that a first token that is not empty and not one of \<^verbatim>\<open>add\<close>,
  \<^verbatim>\<open>list\<close>, \<^verbatim>\<open>update\<close>, \<^verbatim>\<open>remove\<close>, \<^verbatim>\<open>help\<close> makes the program print the error
  and the help and end with a status that is not zero. The program prints both, and then
  \<^verbatim>\<open>main\<close> returns: the status is 0.
\<close>

theorem unknown_command_exit_status:
  assumes "loadJobs w = Inr jobs"
    and "cmd \<notin> set [''add'', ''list'', ''update'', ''remove'', ''help'']" and "cmd \<noteq> []"
  shows "main (cmd # args) e w
    = Inr (0, printHelp (console_error (''Unknown command: '' @ cmd) w))"
  using assms by (simp add: main_def at_def)

theorem unknown_command_exit_status_witness:
  "loadJobs fresh = Inr []
   \<and> ''frobnicate'' \<notin> set [''add'', ''list'', ''update'', ''remove'', ''help'']
   \<and> ''frobnicate'' \<noteq> []
   \<and> main [''frobnicate''] clock fresh
      = Inr (0, \<lparr>data_file = None, stdout = [helpText],
                  stderr = [''Unknown command: frobnicate'']\<rparr>)"
proof -
  have run: "main [''frobnicate''] clock fresh
      = Inr (0, printHelp (console_error (''Unknown command: '' @ ''frobnicate'') fresh))"
    using unknown_command_exit_status [OF loadJobs_fresh, of "''frobnicate''" "[]" clock] by simp
  have out: "printHelp (console_error ''Unknown command: frobnicate'' fresh)
      = \<lparr>data_file = None, stdout = [helpText], stderr = [''Unknown command: frobnicate'']\<rparr>"
    by (simp add: printHelp_def console_error_def console_log_def fresh_def)
  show ?thesis
    using run by (simp add: out loadJobs_fresh)
qed



text \<open>
  C3, as amended. Where no entry has id \<open>X\<close> and the status is one of the five values,
  \<^verbatim>\<open>update X status\<close> ends with status 1, writes one line to the error stream and leaves
  the file as it was. The line is \<^verbatim>\<open>No job found with id: X\<close> where \<open>X\<close> is not blank;
  for a blank \<open>X\<close> it is the line of \<open>requireArg\<close>, which is checked first. The claim as
  stated gives the first line for every \<open>X\<close>, and the run on a single space refutes it.
\<close>

theorem update_unknown_id:
  assumes load: "loadJobs w = Inr jobs"
    and absent: "X \<notin> id' ` set jobs"
    and valid: "isStatus s"
  shows "\<exists>w'. main (''update'' # X # s # extra) e w = Inr (1, w')
    \<and> stderr w' = stderr w @ [if trim X = [] then ''Missing required argument: id''
                                else ''No job found with id: '' @ X]
    \<and> stdout w' = stdout w
    \<and> data_file w' = data_file w"
proof (cases "trim X = []")
  case True
  have "main (''update'' # X # s # extra) e w
      = Inr (1, console_error ''Missing required argument: id'' w)"
    using load True by (simp add: main_update main_update_blank_id)
  then show ?thesis
    using True by (simp add: console_error_def)
next
  case False
  have "main (''update'' # X # s # extra) e w
      = Inr (1, console_error (''No job found with id: '' @ X) w)"
    using load False valid absent by (simp add: main_update main_update_not_found)
  then show ?thesis
    using False by (simp add: console_error_def)
qed

theorem update_unknown_id_witness:
  "loadJobs desk = Inr [job_acme, job_globex]
   \<and> ''17-nope'' \<notin> id' ` set [job_acme, job_globex]
   \<and> isStatus ''offer''
   \<and> (\<exists>w'. main (''update'' # ''17-nope'' # ''offer'' # []) clock desk = Inr (1, w')
      \<and> stderr w' = stderr desk @ [if trim ''17-nope'' = [] then ''Missing required argument: id''
                                else ''No job found with id: '' @ ''17-nope'']
      \<and> stdout w' = stdout desk
      \<and> data_file w' = data_file desk)"
proof -
  have h1: "loadJobs desk = Inr [job_acme, job_globex]"
    by (rule loadJobs_desk)
  have h2: "''17-nope'' \<notin> id' ` set [job_acme, job_globex]"
    by (simp add: job_globex_def job_acme_def)
  have h3: "isStatus ''offer''"
    by (simp add: isStatus_def)
  from update_unknown_id [OF h1 h2 h3, of "[]" clock] h1 h2 h3
  show ?thesis by (intro conjI)
qed

theorem update_blank_id_counterexample:
  "loadJobs fresh = Inr []
   \<and> isStatus ''saved''
   \<and> main [''update'', '' '', ''saved''] clock fresh
        = Inr (1, \<lparr>data_file = None, stdout = [], stderr = [''Missing required argument: id'']\<rparr>)
   \<and> ''Missing required argument: id'' \<noteq> ''No job found with id: '' @ '' ''"
proof -
  have blank: "trim '' '' = []" by code_simp
  have run: "main [''update'', '' '', ''saved''] clock fresh
      = Inr (1, console_error ''Missing required argument: id'' fresh)"
    using loadJobs_fresh blank by (simp add: main_update main_update_blank_id)
  have out: "console_error ''Missing required argument: id'' fresh
      = \<lparr>data_file = None, stdout = [], stderr = [''Missing required argument: id'']\<rparr>"
    by (simp add: console_error_def fresh_def)
  show ?thesis
    using run by (simp add: out loadJobs_fresh isStatus_def)
qed

text \<open>
  C4. With a company and a role that are not blank, \<^verbatim>\<open>add\<close> stores a new entry whose
  status and notes are what the specification reads from the remaining tokens
  (\<open>spec_add\<close>): the third token is the status if and only if it is exactly one of the
  five values, otherwise the status is \<^verbatim>\<open>saved\<close> and that token begins the notes; the
  notes are the remaining tokens joined by single spaces, and are unset when the joined
  string is empty.
\<close>

theorem add_status_and_notes:
  assumes load: "loadJobs w = Inr jobs"
    and company: "trim c \<noteq> []"
    and role: "trim r \<noteq> []"
  shows "\<exists>w'. main (''add'' # c # r # rest) e w = Inr (0, w')
    \<and> loadJobs w' = Inr (\<lparr>id' = makeId e, company = c, role = r, status = fst (spec_add rest),
                           createdAt = toISOString e, notes' = snd (spec_add rest)\<rparr> # jobs)"
proof -
  let ?new = "\<lparr>id' = makeId e, company = c, role = r, status = fst (spec_add rest),
               createdAt = toISOString e, notes' = snd (spec_add rest)\<rparr>"
  let ?w = "console_log (''   id: '' @ makeId e)
            (console_log (check_mark @ '' Added: '' @ c @ '' '' @ em_dash @ '' '' @ r
                           @ '' ('' @ fst (spec_add rest) @ '')'')
              (saveJobs (?new # jobs) w))"
  have run: "main (''add'' # c # r # rest) e w = Inr (0, ?w)"
    using load company role by (simp add: main_add main_add_given)
  have store: "loadJobs ?w = Inr (?new # jobs)"
    by (rule loadJobs_added)
  show ?thesis
    using run store by blast
qed

theorem add_status_and_notes_witness:
  "loadJobs desk = Inr [job_acme, job_globex]
   \<and> trim ''Hooli'' \<noteq> []
   \<and> trim ''Designer'' \<noteq> []
   \<and> (\<exists>w'. main (''add'' # ''Hooli'' # ''Designer'' # [''Applied'', ''met'', ''at'', ''fair'']) clock desk
              = Inr (0, w')
      \<and> loadJobs w' = Inr (\<lparr>id' = makeId clock, company = ''Hooli'', role = ''Designer'',
             status = fst (spec_add [''Applied'', ''met'', ''at'', ''fair'']),
             createdAt = toISOString clock,
             notes' = snd (spec_add [''Applied'', ''met'', ''at'', ''fair''])\<rparr> # [job_acme, job_globex]))
   \<and> spec_add [''Applied'', ''met'', ''at'', ''fair''] = (''saved'', Some ''Applied met at fair'')
   \<and> spec_add [''applied'', ''met'', ''at'', ''fair''] = (''applied'', Some ''met at fair'')
   \<and> spec_add [''offer''] = (''offer'', None)"
proof -
  have h1: "loadJobs desk = Inr [job_acme, job_globex]"
    by (rule loadJobs_desk)
  have "trim ''Hooli'' = ''Hooli''" and "trim ''Designer'' = ''Designer''"
    by code_simp+
  then have h2: "trim ''Hooli'' \<noteq> []" and h3: "trim ''Designer'' \<noteq> []"
    by simp_all
  have readings: "spec_add [''Applied'', ''met'', ''at'', ''fair''] = (''saved'', Some ''Applied met at fair'')"
    "spec_add [''applied'', ''met'', ''at'', ''fair''] = (''applied'', Some ''met at fair'')"
    "spec_add [''offer''] = (''offer'', None)"
    by (simp_all add: spec_notes_def)
  from add_status_and_notes [OF h1 h2 h3, of "[''Applied'', ''met'', ''at'', ''fair'']" clock]
    h1 h2 h3 readings
  show ?thesis by (intro conjI)
qed

text \<open>
  C5, as amended. \<^verbatim>\<open>remove X\<close>, for an \<open>X\<close> that is not blank: where some entry has id
  \<open>X\<close>, the stored collection becomes the old one without the entries whose id is \<open>X\<close>,
  all of them, the others as they were and in their order; it is shorter by exactly one
  where exactly one entry has id \<open>X\<close>. Where no entry has id \<open>X\<close>, and also where \<open>X\<close>
  is blank, the run ends with status 1 and the file is as it was. The claim as stated
  covers a blank \<open>X\<close> too: a collection whose only entry has a blank id keeps it.
\<close>

theorem remove_by_id:
  assumes load: "loadJobs w = Inr jobs"
  shows "\<exists>code w' jobs'.
      main (''remove'' # X # extra) e w = Inr (code, w')
    \<and> loadJobs w' = Inr jobs'
    \<and> (X \<notin> id' ` set jobs \<longrightarrow> code = 1 \<and> data_file w' = data_file w \<and> jobs' = jobs)
    \<and> (trim X = [] \<longrightarrow> code = 1 \<and> data_file w' = data_file w \<and> jobs' = jobs)
    \<and> (trim X \<noteq> [] \<and> X \<in> id' ` set jobs \<longrightarrow>
          code = 0 \<and> jobs' = filter (\<lambda>j. id' j \<noteq> X) jobs \<and> X \<notin> id' ` set jobs')
    \<and> (trim X \<noteq> [] \<and> length (filter (\<lambda>j. id' j = X) jobs) = 1 \<longrightarrow>
          Suc (length jobs') = length jobs)"
proof -
  consider (blank) "trim X = []"
    | (absent) "trim X \<noteq> []" "X \<notin> id' ` set jobs"
    | (found) "trim X \<noteq> []" "X \<in> id' ` set jobs"
    by blast
  then show ?thesis
  proof cases
    case blank
    let ?w = "console_error ''Missing required argument: id'' w"
    have run: "main (''remove'' # X # extra) e w = Inr (1, ?w)"
      using load blank by (simp add: main_remove main_remove_blank_id)
    have store: "loadJobs ?w = Inr jobs"
      using load by simp
    show ?thesis
      using run store blank by (intro exI [of _ 1] exI [of _ ?w] exI [of _ jobs]) simp
  next
    case absent
    let ?w = "console_error (''No job found with id: '' @ X) w"
    have run: "main (''remove'' # X # extra) e w = Inr (1, ?w)"
      using load absent by (simp add: main_remove main_remove_not_found)
    have store: "loadJobs ?w = Inr jobs"
      using load by simp
    have none: "filter (\<lambda>j. id' j = X) jobs = []"
      using absent(2) by (auto simp: filter_empty_conv)
    show ?thesis
      using run store absent none by (intro exI [of _ 1] exI [of _ ?w] exI [of _ jobs]) simp
  next
    case found
    let ?jobs = "filter (\<lambda>j. id' j \<noteq> X) jobs"
    let ?w = "console_log (wastebasket @ '' Removed '' @ X) (saveJobs ?jobs w)"
    have run: "main (''remove'' # X # extra) e w = Inr (0, ?w)"
      using load found by (simp add: main_remove main_remove_found)
    have store: "loadJobs ?w = Inr ?jobs"
      by (rule loadJobs_saved)
    have gone: "X \<notin> id' ` set ?jobs"
      by auto
    have count: "length ?jobs + length (filter (\<lambda>j. id' j = X) jobs) = length jobs"
      using length_filter_split [of "\<lambda>j. id' j = X" jobs] by simp
    have one: "length (filter (\<lambda>j. id' j = X) jobs) = 1 \<longrightarrow> Suc (length ?jobs) = length jobs"
      using count by simp
    show ?thesis
      using run store found gone one
      by (intro exI [of _ 0] exI [of _ ?w] exI [of _ ?jobs]) simp
  qed
qed

theorem remove_by_id_witness:
  "loadJobs desk = Inr [job_acme, job_globex]
   \<and> (\<exists>code w' jobs'.
      main (''remove'' # ''1700000000000-8f3a9c'' # []) clock desk = Inr (code, w')
    \<and> loadJobs w' = Inr jobs'
    \<and> (''1700000000000-8f3a9c'' \<notin> id' ` set [job_acme, job_globex] \<longrightarrow>
          code = 1 \<and> data_file w' = data_file desk \<and> jobs' = [job_acme, job_globex])
    \<and> (trim ''1700000000000-8f3a9c'' = [] \<longrightarrow>
          code = 1 \<and> data_file w' = data_file desk \<and> jobs' = [job_acme, job_globex])
    \<and> (trim ''1700000000000-8f3a9c'' \<noteq> [] \<and> ''1700000000000-8f3a9c'' \<in> id' ` set [job_acme, job_globex] \<longrightarrow>
          code = 0 \<and> jobs' = filter (\<lambda>j. id' j \<noteq> ''1700000000000-8f3a9c'') [job_acme, job_globex]
          \<and> ''1700000000000-8f3a9c'' \<notin> id' ` set jobs')
    \<and> (trim ''1700000000000-8f3a9c'' \<noteq> []
          \<and> length (filter (\<lambda>j. id' j = ''1700000000000-8f3a9c'') [job_acme, job_globex]) = 1 \<longrightarrow>
          Suc (length jobs') = length [job_acme, job_globex]))
   \<and> trim ''1700000000000-8f3a9c'' \<noteq> []
   \<and> length (filter (\<lambda>j. id' j = ''1700000000000-8f3a9c'') [job_acme, job_globex]) = 1"
proof -
  have h1: "loadJobs desk = Inr [job_acme, job_globex]"
    by (rule loadJobs_desk)
  have "trim ''1700000000000-8f3a9c'' = ''1700000000000-8f3a9c''"
    by code_simp
  then have h2: "trim ''1700000000000-8f3a9c'' \<noteq> []"
    by simp
  have h3: "length (filter (\<lambda>j. id' j = ''1700000000000-8f3a9c'') [job_acme, job_globex]) = 1"
    by (simp add: job_acme_def job_globex_def)
  from remove_by_id [OF h1, of "''1700000000000-8f3a9c''" "[]" clock] h1 h2 h3
  show ?thesis by (intro conjI)
qed

theorem remove_blank_id_counterexample:
  "loadJobs (saveJobs [job_blank] fresh) = Inr [job_blank]
   \<and> id' job_blank = '' ''
   \<and> main [''remove'', '' ''] clock (saveJobs [job_blank] fresh)
        = Inr (1, console_error ''Missing required argument: id'' (saveJobs [job_blank] fresh))
   \<and> loadJobs (console_error ''Missing required argument: id'' (saveJobs [job_blank] fresh))
        = Inr [job_blank]"
proof -
  have blank: "trim '' '' = []" by code_simp
  have load: "loadJobs (saveJobs [job_blank] fresh) = Inr [job_blank]"
    by (rule loadJobs_saveJobs)
  have run: "main [''remove'', '' ''] clock (saveJobs [job_blank] fresh)
      = Inr (1, console_error ''Missing required argument: id'' (saveJobs [job_blank] fresh))"
    using load blank by (simp add: main_remove main_remove_blank_id)
  show ?thesis
    using run load by (simp add: job_blank_def)
qed

text \<open>
  C6. Saving a collection and loading it again yields the same collection: the same
  entries, with the same values of all fields, in the same order. This holds for every
  collection, whatever its entries.
\<close>

theorem save_then_load: "loadJobs (saveJobs jobs w) = Inr jobs"
proof -
  let ?text = "JSON_stringify (JArr (map toJSON jobs))"
  have written: "data_file (saveJobs jobs w) = Some ?text"
    by (rule data_file_saveJobs)
  have parsed: "JSON_parse ?text = Inr (JArr (map toJSON jobs))"
    by (rule JSON_parse_stringify_jobs)
  have typed: "asJobApplications (JArr (map toJSON jobs)) = Some jobs"
    by (rule asJobApplications_toJSON)
  show ?thesis
    by (simp add: loadJobs_def written parsed typed)
qed

theorem save_then_load_witness:
  "loadJobs (saveJobs [job_acme, job_globex] fresh) = Inr [job_acme, job_globex]"
  by (rule save_then_load)

text \<open>
  C7. When the backing file does not exist, \<open>loadJobs\<close> returns the empty collection;
  \<^verbatim>\<open>list\<close> then ends with status 0, having written one line to the standard output,
  the message that no jobs are saved yet, and nothing to the error stream, and the file
  still does not exist.
\<close>

theorem list_without_file:
  assumes "data_file w = None"
  shows "loadJobs w = Inr []
    \<and> (\<exists>w'. main [''list''] e w = Inr (0, w')
          \<and> stdout w' = stdout w @ [''No jobs saved yet. Add one with: npm run dev -- add ''
                                      @ [CHR 0x22] @ ''Company'' @ [CHR 0x22] @ '' ''
                                      @ [CHR 0x22] @ ''Role'' @ [CHR 0x22]]
          \<and> stderr w' = stderr w
          \<and> data_file w' = None)"
proof -
  have load: "loadJobs w = Inr []"
    using assms by (simp add: loadJobs_def)
  have run: "main [''list''] e w = Inr (0, console_log no_jobs_message w)"
    using load by (simp add: main_def main_list_def at_def)
  have out: "stdout (console_log no_jobs_message w)
      = stdout w @ [''No jobs saved yet. Add one with: npm run dev -- add ''
                      @ [CHR 0x22] @ ''Company'' @ [CHR 0x22] @ '' ''
                      @ [CHR 0x22] @ ''Role'' @ [CHR 0x22]]"
    by (simp add: console_log_def no_jobs_message_def dq_def)
  have err: "stderr (console_log no_jobs_message w) = stderr w"
    by (simp add: console_log_def)
  have absent: "data_file (console_log no_jobs_message w) = None"
    using assms by (simp add: console_log_def)
  show ?thesis
    using load run out err absent by blast
qed

theorem list_without_file_witness:
  "data_file fresh = None
    \<and> loadJobs fresh = Inr []
    \<and> main [''list''] clock fresh
        = Inr (0, \<lparr>data_file = None,
                    stdout = [''No jobs saved yet. Add one with: npm run dev -- add ''
                                @ [CHR 0x22] @ ''Company'' @ [CHR 0x22] @ '' ''
                                @ [CHR 0x22] @ ''Role'' @ [CHR 0x22]],
                    stderr = []\<rparr>)"
proof -
  have h: "data_file fresh = None"
    by (simp add: fresh_def)
  from list_without_file [OF h, of clock]
  obtain w' where load: "loadJobs fresh = Inr []"
    and run: "main [''list''] clock fresh = Inr (0, w')"
    and out: "stdout w' = stdout fresh @ [''No jobs saved yet. Add one with: npm run dev -- add ''
                                      @ [CHR 0x22] @ ''Company'' @ [CHR 0x22] @ '' ''
                                      @ [CHR 0x22] @ ''Role'' @ [CHR 0x22]]"
    and err: "stderr w' = stderr fresh"
    and absent: "data_file w' = None"
    by blast
  have "w' = \<lparr>data_file = None,
                    stdout = [''No jobs saved yet. Add one with: npm run dev -- add ''
                                @ [CHR 0x22] @ ''Company'' @ [CHR 0x22] @ '' ''
                                @ [CHR 0x22] @ ''Role'' @ [CHR 0x22]],
                    stderr = []\<rparr>"
    using out err absent by (cases w') (simp add: fresh_def)
  with h load run show ?thesis
    by simp
qed

text \<open>
  C8, as amended. Where the entry that \<^verbatim>\<open>update\<close> targets, the first with id \<open>X\<close>,
  already has the requested status, \<open>X\<close> is not blank and the status is one of the five
  values, the run ends with status 0, writes the file, and the stored collection is the
  original one. And for every collection, id and status, running the same \<^verbatim>\<open>update\<close> a
  second time ends with the same status and leaves the stored collection of the first
  run. The claim as stated asks only for some entry with id \<open>X\<close> and that status: a blank
  id fails, and of two entries that share an id the first one is changed.
\<close>

theorem update_twice:
  assumes load: "loadJobs w = Inr jobs"
  shows "(\<forall>idx. findIndex (\<lambda>j. id' j = X) jobs = Some idx \<and> status (jobs ! idx) = s
            \<and> isStatus s \<and> trim X \<noteq> [] \<longrightarrow>
          (\<exists>w'. main (''update'' # X # s # extra) e w = Inr (0, w')
              \<and> data_file w' = data_file (saveJobs jobs w)
              \<and> loadJobs w' = Inr jobs))
    \<and> (\<exists>code w1 w2. main (''update'' # X # s # extra) e w = Inr (code, w1)
              \<and> main (''update'' # X # s # extra) e2 w1 = Inr (code, w2)
              \<and> loadJobs w2 = loadJobs w1)"
proof (intro conjI allI impI)
  fix idx
  assume h: "findIndex (\<lambda>j. id' j = X) jobs = Some idx \<and> status (jobs ! idx) = s
            \<and> isStatus s \<and> trim X \<noteq> []"
  then have bound: "idx < length jobs"
    using findIndex_Some by fastforce
  have same: "jobs[idx := (jobs ! idx)\<lparr>status := s\<rparr>] = jobs"
    using bound h by (intro list_update_same_status) simp_all
  let ?w = "console_log (check_mark @ '' Updated '' @ X @ '' '' @ right_arrow @ '' '' @ s)
                (saveJobs jobs w)"
  have run: "main (''update'' # X # s # extra) e w = Inr (0, ?w)"
    using load h by (simp add: main_update main_update_found same)
  have written: "data_file ?w = data_file (saveJobs jobs w)"
    by (simp add: data_file_saveJobs)
  have store: "loadJobs ?w = Inr jobs"
    by (rule loadJobs_saved)
  show "\<exists>w'. main (''update'' # X # s # extra) e w = Inr (0, w')
              \<and> data_file w' = data_file (saveJobs jobs w)
              \<and> loadJobs w' = Inr jobs"
    using run written store by blast
next
  let ?args = "X # s # extra"
  consider (blank) "trim X = []"
    | (invalid) "trim X \<noteq> []" "\<not> isStatus s"
    | (absent) "trim X \<noteq> []" "isStatus s" "findIndex (\<lambda>j. id' j = X) jobs = None"
    | (found) idx where "trim X \<noteq> []" "isStatus s" "findIndex (\<lambda>j. id' j = X) jobs = Some idx"
    by (cases "findIndex (\<lambda>j. id' j = X) jobs") blast+
  then show "\<exists>code w1 w2. main (''update'' # ?args) e w = Inr (code, w1)
              \<and> main (''update'' # ?args) e2 w1 = Inr (code, w2)
              \<and> loadJobs w2 = loadJobs w1"
  proof cases
    case blank
    let ?m = "''Missing required argument: id''"
    have "main (''update'' # ?args) e w = Inr (1, console_error ?m w)"
      and "main (''update'' # ?args) e2 (console_error ?m w)
            = Inr (1, console_error ?m (console_error ?m w))"
      using load blank by (simp_all add: main_update main_update_blank_id)
    then show ?thesis
      by (intro exI [of _ 1] exI [of _ "console_error ?m w"]
            exI [of _ "console_error ?m (console_error ?m w)"]) simp
  next
    case invalid
    have stop: "main_update ?args js v = (if trim s = [] then (1, console_error ''Missing required argument: status'' v)
                 else (1, printHelp (console_error (''Invalid status: '' @ s) v)))" for js v
      using invalid by (simp add: main_update_def requireArg_given requireArg_def)
    let ?next = "\<lambda>v. if trim s = [] then console_error ''Missing required argument: status'' v
                 else printHelp (console_error (''Invalid status: '' @ s) v)"
    have "main (''update'' # ?args) e w = Inr (1, ?next w)"
      and "main (''update'' # ?args) e2 (?next w) = Inr (1, ?next (?next w))"
      using load by (simp_all add: main_update stop)
    then show ?thesis
      by (intro exI [of _ 1] exI [of _ "?next w"] exI [of _ "?next (?next w)"]) simp
  next
    case absent
    then have none: "X \<notin> id' ` set jobs"
      by (auto simp: findIndex_None)
    let ?m = "''No job found with id: '' @ X"
    have "main (''update'' # ?args) e w = Inr (1, console_error ?m w)"
      and "main (''update'' # ?args) e2 (console_error ?m w)
            = Inr (1, console_error ?m (console_error ?m w))"
      using load absent none by (simp_all add: main_update main_update_not_found)
    then show ?thesis
      by (intro exI [of _ 1] exI [of _ "console_error ?m w"]
            exI [of _ "console_error ?m (console_error ?m w)"]) simp
  next
    case found
    then have bound: "idx < length jobs"
      using findIndex_Some by fastforce
    let ?jobs = "jobs[idx := (jobs ! idx)\<lparr>status := s\<rparr>]"
    let ?m = "check_mark @ '' Updated '' @ X @ '' '' @ right_arrow @ '' '' @ s"
    let ?w1 = "console_log ?m (saveJobs ?jobs w)"
    let ?w2 = "console_log ?m (saveJobs ?jobs ?w1)"
    have first: "main (''update'' # ?args) e w = Inr (0, ?w1)"
      using load found by (simp add: main_update main_update_found)
    have store: "loadJobs ?w1 = Inr ?jobs"
      by (rule loadJobs_saved)
    have again: "findIndex (\<lambda>j. id' j = X) ?jobs = Some idx"
      using found(3) by (simp add: findIndex_update_status)
    have same: "?jobs[idx := (?jobs ! idx)\<lparr>status := s\<rparr>] = ?jobs"
      using bound by (intro list_update_same_status) simp_all
    have second: "main (''update'' # ?args) e2 ?w1 = Inr (0, ?w2)"
      using store found(1,2) again same by (simp add: main_update main_update_found)
    have "loadJobs ?w2 = Inr ?jobs"
      by (rule loadJobs_saved)
    then show ?thesis
      using first second store by (intro exI [of _ 0] exI [of _ ?w1] exI [of _ ?w2]) simp
  qed
qed

theorem update_twice_witness:
  "loadJobs desk = Inr [job_acme, job_globex]
   \<and> findIndex (\<lambda>j. id' j = ''1700000000000-8f3a9c'') [job_acme, job_globex] = Some 0
   \<and> status ([job_acme, job_globex] ! 0) = ''applied''
   \<and> isStatus ''applied''
   \<and> trim ''1700000000000-8f3a9c'' \<noteq> []
   \<and> (\<exists>w'. main (''update'' # ''1700000000000-8f3a9c'' # ''applied'' # []) clock desk = Inr (0, w')
          \<and> data_file w' = data_file (saveJobs [job_acme, job_globex] desk)
          \<and> loadJobs w' = Inr [job_acme, job_globex])
   \<and> (\<exists>code w1 w2.
          main (''update'' # ''1700000000000-8f3a9c'' # ''applied'' # []) clock desk = Inr (code, w1)
          \<and> main (''update'' # ''1700000000000-8f3a9c'' # ''applied'' # []) clock w1 = Inr (code, w2)
          \<and> loadJobs w2 = loadJobs w1)"
proof -
  have h1: "loadJobs desk = Inr [job_acme, job_globex]"
    by (rule loadJobs_desk)
  have h2: "findIndex (\<lambda>j. id' j = ''1700000000000-8f3a9c'') [job_acme, job_globex] = Some 0"
    by (simp add: job_acme_def)
  have h3: "status ([job_acme, job_globex] ! 0) = ''applied''"
    by (simp add: job_acme_def)
  have h4: "isStatus ''applied''"
    by (simp add: isStatus_def)
  have "trim ''1700000000000-8f3a9c'' = ''1700000000000-8f3a9c''"
    by code_simp
  then have h5: "trim ''1700000000000-8f3a9c'' \<noteq> []"
    by simp
  note both = update_twice [OF h1, of "''1700000000000-8f3a9c''" "''applied''" "[]" clock clock]
  from both h2 h3 h4 h5
  have once: "\<exists>w'. main (''update'' # ''1700000000000-8f3a9c'' # ''applied'' # []) clock desk = Inr (0, w')
          \<and> data_file w' = data_file (saveJobs [job_acme, job_globex] desk)
          \<and> loadJobs w' = Inr [job_acme, job_globex]"
    by blast
  from both
  have twice: "\<exists>code w1 w2.
          main (''update'' # ''1700000000000-8f3a9c'' # ''applied'' # []) clock desk = Inr (code, w1)
          \<and> main (''update'' # ''1700000000000-8f3a9c'' # ''applied'' # []) clock w1 = Inr (code, w2)
          \<and> loadJobs w2 = loadJobs w1"
    by (rule conjunct2)
  from h1 h2 h3 h4 h5 once twice show ?thesis
    by (intro conjI)
qed

theorem update_same_status_counterexample:
  "loadJobs (saveJobs [job_blank] fresh) = Inr [job_blank]
   \<and> id' job_blank = '' ''
   \<and> status job_blank = ''saved''
   \<and> main [''update'', '' '', ''saved''] clock (saveJobs [job_blank] fresh)
        = Inr (1, console_error ''Missing required argument: id'' (saveJobs [job_blank] fresh))
   \<and> loadJobs (saveJobs [job_acme\<lparr>status := ''saved''\<rparr>, job_acme] fresh)
        = Inr [job_acme\<lparr>status := ''saved''\<rparr>, job_acme]
   \<and> id' (job_acme\<lparr>status := ''saved''\<rparr>) = id' job_acme
   \<and> status job_acme = ''applied''
   \<and> main [''update'', id' job_acme, ''applied''] clock
          (saveJobs [job_acme\<lparr>status := ''saved''\<rparr>, job_acme] fresh)
        = Inr (0, console_log (check_mark @ '' Updated '' @ id' job_acme @ '' '' @ right_arrow
                                @ '' '' @ ''applied'')
                    (saveJobs [job_acme, job_acme]
                       (saveJobs [job_acme\<lparr>status := ''saved''\<rparr>, job_acme] fresh)))
   \<and> [job_acme, job_acme] \<noteq> [job_acme\<lparr>status := ''saved''\<rparr>, job_acme]"
proof -
  have blank: "trim '' '' = []"
    by code_simp
  have load1: "loadJobs (saveJobs [job_blank] fresh) = Inr [job_blank]"
    by (rule loadJobs_saveJobs)
  have run1: "main [''update'', '' '', ''saved''] clock (saveJobs [job_blank] fresh)
      = Inr (1, console_error ''Missing required argument: id'' (saveJobs [job_blank] fresh))"
    using load1 blank by (simp add: main_update main_update_blank_id)
  let ?twins = "[job_acme\<lparr>status := ''saved''\<rparr>, job_acme]"
  have load2: "loadJobs (saveJobs ?twins fresh) = Inr ?twins"
    by (rule loadJobs_saveJobs)
  have "trim ''1700000000000-8f3a9c'' = ''1700000000000-8f3a9c''"
    by code_simp
  then have given: "trim (id' job_acme) \<noteq> []"
    by (simp add: job_acme_def)
  have valid: "isStatus ''applied''"
    by (simp add: isStatus_def)
  have first: "findIndex (\<lambda>j. id' j = id' job_acme) ?twins = Some 0"
    by simp
  have changed: "?twins[0 := (?twins ! 0)\<lparr>status := ''applied''\<rparr>] = [job_acme, job_acme]"
    by (simp add: job_acme_def)
  have run2: "main [''update'', id' job_acme, ''applied''] clock (saveJobs ?twins fresh)
      = Inr (0, console_log (check_mark @ '' Updated '' @ id' job_acme @ '' '' @ right_arrow
                                @ '' '' @ ''applied'')
                    (saveJobs [job_acme, job_acme] (saveJobs ?twins fresh)))"
    using main_update_found [OF given valid first, of "[]" "saveJobs ?twins fresh"] changed
    by (simp add: main_update [OF load2])
  have differ: "[job_acme, job_acme] \<noteq> ?twins"
    by (simp add: job_acme_def)
  have facts: "id' job_blank = '' ''" "status job_blank = ''saved''"
      "id' (job_acme\<lparr>status := ''saved''\<rparr>) = id' job_acme" "status job_acme = ''applied''"
    by (simp_all add: job_blank_def job_acme_def)
  from load1 facts run1 load2 run2 differ show ?thesis
    by (intro conjI)
qed

text \<open>
  C9. The company and the role of \<^verbatim>\<open>add\<close> are checked after trimming and stored as
  given: a blank company or role ends the run with status 1 and the line of
  \<open>requireArg\<close>; otherwise the new entry holds both tokens exactly as supplied, so a
  token with white space around its content is not stored in its trimmed form.
\<close>

theorem add_stores_verbatim:
  assumes load: "loadJobs w = Inr jobs"
  shows "(trim c = [] \<longrightarrow>
            main (''add'' # c # r # rest) e w
              = Inr (1, console_error ''Missing required argument: company'' w))
    \<and> (trim c \<noteq> [] \<and> trim r = [] \<longrightarrow>
            main (''add'' # c # r # rest) e w
              = Inr (1, console_error ''Missing required argument: role'' w))
    \<and> (trim c \<noteq> [] \<and> trim r \<noteq> [] \<longrightarrow>
          (\<exists>w' j. main (''add'' # c # r # rest) e w = Inr (0, w')
              \<and> loadJobs w' = Inr (j # jobs)
              \<and> company j = c \<and> role j = r
              \<and> (trim c \<noteq> c \<longrightarrow> company j \<noteq> trim c)
              \<and> (trim r \<noteq> r \<longrightarrow> role j \<noteq> trim r)))"
proof (intro conjI impI)
  assume "trim c = []"
  then show "main (''add'' # c # r # rest) e w
      = Inr (1, console_error ''Missing required argument: company'' w)"
    using load by (simp add: main_add main_add_blank_company)
next
  assume "trim c \<noteq> [] \<and> trim r = []"
  then show "main (''add'' # c # r # rest) e w
      = Inr (1, console_error ''Missing required argument: role'' w)"
    using load by (simp add: main_add main_add_blank_role)
next
  assume given: "trim c \<noteq> [] \<and> trim r \<noteq> []"
  let ?new = "\<lparr>id' = makeId e, company = c, role = r, status = fst (spec_add rest),
               createdAt = toISOString e, notes' = snd (spec_add rest)\<rparr>"
  let ?w = "console_log (''   id: '' @ makeId e)
            (console_log (check_mark @ '' Added: '' @ c @ '' '' @ em_dash @ '' '' @ r
                           @ '' ('' @ fst (spec_add rest) @ '')'')
              (saveJobs (?new # jobs) w))"
  have run: "main (''add'' # c # r # rest) e w = Inr (0, ?w)"
    using load given by (simp add: main_add main_add_given)
  have store: "loadJobs ?w = Inr (?new # jobs)"
    by (rule loadJobs_added)
  show "\<exists>w' j. main (''add'' # c # r # rest) e w = Inr (0, w')
              \<and> loadJobs w' = Inr (j # jobs)
              \<and> company j = c \<and> role j = r
              \<and> (trim c \<noteq> c \<longrightarrow> company j \<noteq> trim c)
              \<and> (trim r \<noteq> r \<longrightarrow> role j \<noteq> trim r)"
    using run store by (intro exI [of _ ?w] exI [of _ ?new]) auto
qed

theorem add_stores_verbatim_witness:
  "loadJobs desk = Inr [job_acme, job_globex]
   \<and> trim ''  Acme Corp '' = ''Acme Corp''
   \<and> trim ''Engineer  '' = ''Engineer''
   \<and> (\<exists>w' j. main (''add'' # ''  Acme Corp '' # ''Engineer  '' # []) clock desk = Inr (0, w')
              \<and> loadJobs w' = Inr (j # [job_acme, job_globex])
              \<and> company j = ''  Acme Corp '' \<and> role j = ''Engineer  ''
              \<and> (trim ''  Acme Corp '' \<noteq> ''  Acme Corp '' \<longrightarrow> company j \<noteq> trim ''  Acme Corp '')
              \<and> (trim ''Engineer  '' \<noteq> ''Engineer  '' \<longrightarrow> role j \<noteq> trim ''Engineer  ''))"
proof -
  have h1: "loadJobs desk = Inr [job_acme, job_globex]"
    by (rule loadJobs_desk)
  have t1: "trim ''  Acme Corp '' = ''Acme Corp''" and t2: "trim ''Engineer  '' = ''Engineer''"
    by code_simp+
  have given: "trim ''  Acme Corp '' \<noteq> [] \<and> trim ''Engineer  '' \<noteq> []"
    by (simp only: t1 t2) simp
  from add_stores_verbatim [OF h1, of "''  Acme Corp ''" "''Engineer  ''" "[]" clock] given
  have "\<exists>w' j. main (''add'' # ''  Acme Corp '' # ''Engineer  '' # []) clock desk = Inr (0, w')
              \<and> loadJobs w' = Inr (j # [job_acme, job_globex])
              \<and> company j = ''  Acme Corp '' \<and> role j = ''Engineer  ''
              \<and> (trim ''  Acme Corp '' \<noteq> ''  Acme Corp '' \<longrightarrow> company j \<noteq> trim ''  Acme Corp '')
              \<and> (trim ''Engineer  '' \<noteq> ''Engineer  '' \<longrightarrow> role j \<noteq> trim ''Engineer  '')"
    by blast
  with h1 t1 t2 show ?thesis by (intro conjI)
qed

text \<open>
  C10. Every command keeps the order of the entries it neither creates nor deletes, for
  every list of arguments: after \<^verbatim>\<open>add\<close> the stored collection is the old one, or the
  old one behind one new entry; after \<^verbatim>\<open>update\<close> it has the same length and every
  position holds the entry it held, up to its status; after \<^verbatim>\<open>remove\<close> it is the old
  one, or the old one without the entries of one id, the others in their order.
\<close>

theorem commands_keep_order:
  assumes load: "loadJobs w = Inr jobs"
  shows "(\<exists>code w' jobs'. main (''add'' # args) e w = Inr (code, w')
            \<and> loadJobs w' = Inr jobs' \<and> (jobs' = jobs \<or> (\<exists>j. jobs' = j # jobs)))
    \<and> (\<exists>code w' jobs'. main (''update'' # args) e w = Inr (code, w')
            \<and> loadJobs w' = Inr jobs' \<and> length jobs' = length jobs
            \<and> (\<forall>i < length jobs. jobs' ! i = (jobs ! i)\<lparr>status := status (jobs' ! i)\<rparr>))
    \<and> (\<exists>code w' jobs'. main (''remove'' # args) e w = Inr (code, w')
            \<and> loadJobs w' = Inr jobs'
            \<and> (jobs' = jobs \<or> (\<exists>X. jobs' = filter (\<lambda>j. id' j \<noteq> X) jobs))
            \<and> subseq jobs' jobs)"
proof (intro conjI)
  show "\<exists>code w' jobs'. main (''add'' # args) e w = Inr (code, w')
            \<and> loadJobs w' = Inr jobs' \<and> (jobs' = jobs \<or> (\<exists>j. jobs' = j # jobs))"
    using main_add_store [OF load, of args e] by (simp add: main_add [OF load])
  show "\<exists>code w' jobs'. main (''update'' # args) e w = Inr (code, w')
            \<and> loadJobs w' = Inr jobs' \<and> length jobs' = length jobs
            \<and> (\<forall>i < length jobs. jobs' ! i = (jobs ! i)\<lparr>status := status (jobs' ! i)\<rparr>)"
    using main_update_store [OF load, of args] by (simp add: main_update [OF load])
  obtain code w' jobs' where r: "main_remove args jobs w = (code, w')" "loadJobs w' = Inr jobs'"
      "jobs' = jobs \<or> (\<exists>X. jobs' = filter (\<lambda>j. id' j \<noteq> X) jobs)"
    using main_remove_store [OF load, of args] by blast
  from r(3) have "subseq jobs' jobs"
    by auto
  with r show "\<exists>code w' jobs'. main (''remove'' # args) e w = Inr (code, w')
            \<and> loadJobs w' = Inr jobs'
            \<and> (jobs' = jobs \<or> (\<exists>X. jobs' = filter (\<lambda>j. id' j \<noteq> X) jobs))
            \<and> subseq jobs' jobs"
    by (simp add: main_remove [OF load])
qed

theorem commands_keep_order_witness:
  "loadJobs desk = Inr [job_acme, job_globex]
   \<and> (\<exists>code w' jobs'. main (''add'' # [''1690000000000-1b2c'', ''offer'']) clock desk = Inr (code, w')
            \<and> loadJobs w' = Inr jobs'
            \<and> (jobs' = [job_acme, job_globex] \<or> (\<exists>j. jobs' = j # [job_acme, job_globex])))
   \<and> (\<exists>code w' jobs'. main (''update'' # [''1690000000000-1b2c'', ''offer'']) clock desk = Inr (code, w')
            \<and> loadJobs w' = Inr jobs' \<and> length jobs' = length [job_acme, job_globex]
            \<and> (\<forall>i < length [job_acme, job_globex].
                  jobs' ! i = ([job_acme, job_globex] ! i)\<lparr>status := status (jobs' ! i)\<rparr>))
   \<and> (\<exists>code w' jobs'. main (''remove'' # [''1690000000000-1b2c'', ''offer'']) clock desk = Inr (code, w')
            \<and> loadJobs w' = Inr jobs'
            \<and> (jobs' = [job_acme, job_globex]
                 \<or> (\<exists>X. jobs' = filter (\<lambda>j. id' j \<noteq> X) [job_acme, job_globex]))
            \<and> subseq jobs' [job_acme, job_globex])"
proof -
  have h1: "loadJobs desk = Inr [job_acme, job_globex]"
    by (rule loadJobs_desk)
  show ?thesis
    by (rule conjI [OF h1 commands_keep_order [OF h1, of "[''1690000000000-1b2c'', ''offer'']" clock]])
qed

end
